theory Spec2Isabelle
  imports Complex_Main "HOL-Library.Word" "HOL-Library.Signed_Division"
begin

section \<open>Multi-path Pathfinder: \<open>stan/services/pathfinder/multi.hpp\<close>\<close>

text \<open>
  A shallow embedding of \<^verbatim>\<open>pathfinder_lbfgs_multi\<close>. The function talks to five
  collaborators that live outside the file (the model, the single-path runner, the PSIS
  weight function, the random number generator with its discrete distribution, the
  clock) and to three sinks (parameter writer, diagnostic writer, logger). The
  collaborators are fields of an environment record; every call to a sink and every
  call to a collaborator that a property speaks about is appended to one event trace,
  in program order.

  Conventions:
  \<^item> \<^verbatim>\<open>unsigned int\<close> is \<open>32 word\<close>, \<^verbatim>\<open>size_t\<close> is \<open>64 word\<close>; \<^verbatim>\<open>int\<close>
    arguments are \<open>int\<close>, and every conversion of an \<^verbatim>\<open>int\<close> to an unsigned type is
    written out with \<open>word_of_int\<close> (reduction modulo the width).
  \<^item> \<^verbatim>\<open>double\<close> is idealised as \<open>real\<close>.
  \<^item> \<^verbatim>\<open>tbb::parallel_for\<close> hands the loop body a family of sub-ranges of
    \<^verbatim>\<open>[0, num_paths)\<close>. The model takes that family as a list. \<open>parallel_for\<close> runs
    the body on one sub-range after the other, which is an execution in which the
    bodies do not overlap in time; \<open>concurrent_for\<close> lets the bodies take turns
    between their accesses to the shared vectors and the shared counter.
\<close>

subsection \<open>Data\<close>

type_synonym uint = "32 word"
type_synonym size_t = "64 word"

text \<open>\<^verbatim>\<open>Eigen::Array<double, -1, -1>\<close>: a row count and the list of columns.\<close>

record matrix =
  nrows :: nat
  mcols :: "real list list"

definition ncols :: "matrix \<Rightarrow> nat" where
  "ncols m = length (mcols m)"

text \<open>
  The tuple returned by \<^verbatim>\<open>pathfinder_lbfgs_single<true>\<close>: return code, log-density
  ratios, constrained draws (one per column) and the number of log-density evaluations,
  as the \<^verbatim>\<open>size_t\<close> that is added to the counter.
\<close>

record path_ret =
  ret_code :: int
  lp_ratio :: "real list"
  draws :: matrix
  evals :: size_t

text \<open>What a \<^verbatim>\<open>callbacks::writer\<close> can be called with.\<close>

datatype row = Names "string list" | Values "real list" | Blank | Text string

datatype event =
    ParamWrite row
  | DiagWrite row
  | LogInfo string
  | RunPath int uint uint
  | PsisCall "real list" real
  | CreateRng uint uint

text \<open>
  The collaborators. \<open>SOFTWARE\<close> is the value of \<^verbatim>\<open>error_codes::SOFTWARE\<close>
  (\<^verbatim>\<open>stan/services/error_codes.hpp\<close>). \<open>pathfinder_lbfgs_single seed id iter\<close> is the
  single-path run with random seed \<open>seed\<close>, path id \<open>id\<close> and the \<open>iter\<close>-th
  initialisation context and writers; all other arguments are passed through
  unchanged. \<open>discrete_draw w g\<close> is one call of the variate generator built from the
  weights \<open>w\<close>, in generator state \<open>g\<close>. \<open>now k\<close> is the reading of the \<open>k\<close>-th call
  of \<^verbatim>\<open>steady_clock::now()\<close>, in nanoseconds. \<open>junk\<close> stands for the contents of a
  freshly allocated Eigen array, which are not initialised.
\<close>

record 'g env =
  SOFTWARE :: int
  constrained_param_names :: "string list"
  pathfinder_lbfgs_single :: "uint \<Rightarrow> uint \<Rightarrow> int \<Rightarrow> path_ret"
  psis_weights :: "real list \<Rightarrow> real \<Rightarrow> real list"
  create_rng :: "uint \<Rightarrow> uint \<Rightarrow> 'g"
  discrete_draw :: "real list \<Rightarrow> 'g \<Rightarrow> int \<times> 'g"
  to_string_double :: "real \<Rightarrow> string"
  now :: "nat \<Rightarrow> int"
  junk :: real

text \<open>The arguments that \<^verbatim>\<open>pathfinder_lbfgs_multi\<close> itself inspects.\<close>

record args =
  random_seed :: uint
  path :: uint
  refresh :: int
  num_multi_draws :: int
  num_paths :: int

datatype outcome = Returned int | Eigen_assert | Threw | Still_running

subsection \<open>Helpers of the standard library\<close>

text \<open>\<^verbatim>\<open>std::to_string\<close> on integers: decimal digits, a minus sign when negative.\<close>

fun digits_of :: "nat \<Rightarrow> string" where
  "digits_of n =
     (if n < 10 then [''0123456789'' ! n]
      else digits_of (n div 10) @ [''0123456789'' ! (n mod 10)])"

declare digits_of.simps [simp del]

definition to_string :: "int \<Rightarrow> string" where
  "to_string i = (if i < 0 then CHR ''-'' # digits_of (nat (- i)) else digits_of (nat i))"

text \<open>
  \<^verbatim>\<open>duration_seconds\<close>: the difference of two time points, cast to whole milliseconds
  (towards zero), over 1000.
\<close>

definition duration_seconds :: "int \<Rightarrow> int \<Rightarrow> real" where
  "duration_seconds start_t end_t = real_of_int ((end_t - start_t) sdiv 1000000) / 1000.0"

subsection \<open>The parallel phase\<close>

record orch =
  trace :: "event list"
  individual_lp_ratios :: "real list list"
  individual_samples :: "matrix list"
  lp_calls :: size_t

text \<open>
  The body of the lambda on the sub-range \<^verbatim>\<open>[iter, r_end)\<close>. On a failed path it logs
  and executes \<^verbatim>\<open>return\<close>, which leaves the lambda.
\<close>

function range_body :: "'g env \<Rightarrow> args \<Rightarrow> int \<Rightarrow> int \<Rightarrow> orch \<Rightarrow> orch" where
  "range_body env a iter r_end st =
     (if iter < r_end then
        (let pathfinder_ret =
               pathfinder_lbfgs_single env (random_seed a) (path a + word_of_int iter) iter;
             st1 = st\<lparr>trace := trace st
                      @ [RunPath iter (random_seed a) (path a + word_of_int iter)]\<rparr>
         in if ret_code pathfinder_ret = SOFTWARE env then
              st1\<lparr>trace := trace st1
                     @ [LogInfo (''Pathfinder iteration: '' @ to_string iter @ '' failed.'')]\<rparr>
            else
              range_body env a (iter + 1) r_end
                (st1\<lparr>individual_lp_ratios :=
                        individual_lp_ratios st1 @ [lp_ratio pathfinder_ret],
                      individual_samples := individual_samples st1 @ [draws pathfinder_ret],
                      lp_calls := lp_calls st1 + evals pathfinder_ret\<rparr>))
      else st)"
  by pat_completeness auto
termination
  by (relation "measure (\<lambda>(env, a, iter, r_end, st). nat (r_end - iter))") auto

declare range_body.simps [simp del]

text \<open>\<^verbatim>\<open>tbb::parallel_for\<close> over the sub-ranges it chose, one after the other.\<close>

fun parallel_for :: "'g env \<Rightarrow> args \<Rightarrow> (int \<times> int) list \<Rightarrow> orch \<Rightarrow> orch" where
  "parallel_for env a [] st = st"
| "parallel_for env a ((r_begin, r_end) # rs) st =
     parallel_for env a rs (range_body env a r_begin r_end st)"

text \<open>
  The sub-ranges that \<^verbatim>\<open>parallel_for\<close> may hand out for
  \<^verbatim>\<open>blocked_range<int>(0, num_paths)\<close>: non-empty, and together they hold every index
  of the range exactly once. An empty range has no sub-range.
\<close>

definition splits_range :: "int \<Rightarrow> (int \<times> int) list \<Rightarrow> bool" where
  "splits_range n rs \<longleftrightarrow>
     list_all (\<lambda>(b, e). b < e) rs \<and>
     sort (concat (map (\<lambda>(b, e). [b..e - 1]) rs)) = [0..n - 1]"

subsection \<open>The parallel phase with overlapping bodies\<close>

text \<open>
  Bodies that run at the same time share the two result vectors and the counter. An
  iteration of a body touches them in four places, which are the steps of the model:
  the call of the single-path run with the check of its return code (lines 119 to
  131), \<^verbatim>\<open>emplace_back\<close> on \<^verbatim>\<open>individual_lp_ratios\<close> (line 132), \<^verbatim>\<open>emplace_back\<close>
  on \<^verbatim>\<open>individual_samples\<close> (line 134) and the addition to \<^verbatim>\<open>lp_calls\<close> (line 136).
  Each append to a concurrent vector and the atomic addition are indivisible; between
  two steps of one body any other body may take steps. A body is the index it works
  on, the end of its sub-range and the step it is about to take. The single-path run is
  a function of its arguments, so the value held in \<^verbatim>\<open>pathfinder_ret\<close> is computed
  again where it is used.
\<close>

datatype pc = At_call | At_ratios | At_samples | At_count

record body =
  b_iter :: int
  b_end :: int
  b_pc :: pc

text \<open>One step of a body; a body whose sub-range is used up does nothing.\<close>

definition body_step :: "'g env \<Rightarrow> args \<Rightarrow> body \<Rightarrow> orch \<Rightarrow> body \<times> orch" where
  "body_step env a b st =
     (if b_iter b < b_end b then
        (let iter = b_iter b;
             pathfinder_ret =
               pathfinder_lbfgs_single env (random_seed a) (path a + word_of_int iter) iter
         in case b_pc b of
              At_call \<Rightarrow>
                (let st1 = st\<lparr>trace := trace st
                             @ [RunPath iter (random_seed a) (path a + word_of_int iter)]\<rparr>
                 in if ret_code pathfinder_ret = SOFTWARE env then
                      (b\<lparr>b_iter := b_end b\<rparr>,
                       st1\<lparr>trace := trace st1
                             @ [LogInfo (''Pathfinder iteration: '' @ to_string iter
                                         @ '' failed.'')]\<rparr>)
                    else (b\<lparr>b_pc := At_ratios\<rparr>, st1))
            | At_ratios \<Rightarrow>
                (b\<lparr>b_pc := At_samples\<rparr>,
                 st\<lparr>individual_lp_ratios :=
                      individual_lp_ratios st @ [lp_ratio pathfinder_ret]\<rparr>)
            | At_samples \<Rightarrow>
                (b\<lparr>b_pc := At_count\<rparr>,
                 st\<lparr>individual_samples := individual_samples st @ [draws pathfinder_ret]\<rparr>)
            | At_count \<Rightarrow>
                (b\<lparr>b_iter := iter + 1, b_pc := At_call\<rparr>,
                 st\<lparr>lp_calls := lp_calls st + evals pathfinder_ret\<rparr>))
      else (b, st))"

text \<open>The steps of an iteration, counted.\<close>

fun pc_index :: "pc \<Rightarrow> nat" where
  "pc_index At_call = 0"
| "pc_index At_ratios = 1"
| "pc_index At_samples = 2"
| "pc_index At_count = 3"

text \<open>A body run to its end without interruption.\<close>

function finish_body :: "'g env \<Rightarrow> args \<Rightarrow> body \<Rightarrow> orch \<Rightarrow> orch" where
  "finish_body env a b st =
     (if b_iter b < b_end b
      then (case body_step env a b st of (b', st') \<Rightarrow> finish_body env a b' st')
      else st)"
  by pat_completeness auto
termination
  by (relation "measure (\<lambda>(env, a, b, st). 4 * nat (b_end b - b_iter b) - pc_index (b_pc b))")
     (auto simp: body_step_def Let_def split: pc.splits if_splits)

declare finish_body.simps [simp del]

text \<open>
  \<open>concurrent_for env a sched bs st\<close>: the bodies \<open>bs\<close> take steps in the order that
  the schedule \<open>sched\<close> names them; when the schedule is used up, \<^verbatim>\<open>parallel_for\<close>
  waits for every body, which the model does by finishing them one after the other.
\<close>

fun join_all :: "'g env \<Rightarrow> args \<Rightarrow> body list \<Rightarrow> orch \<Rightarrow> orch" where
  "join_all env a [] st = st"
| "join_all env a (b # bs) st = join_all env a bs (finish_body env a b st)"

fun concurrent_for :: "'g env \<Rightarrow> args \<Rightarrow> nat list \<Rightarrow> body list \<Rightarrow> orch \<Rightarrow> orch" where
  "concurrent_for env a [] bs st = join_all env a bs st"
| "concurrent_for env a (k # sched) bs st =
     (if k < length bs
      then (case body_step env a (bs ! k) st of
              (b', st') \<Rightarrow> concurrent_for env a sched (bs[k := b']) st')
      else concurrent_for env a sched bs st)"

text \<open>One body for each sub-range, at its first index.\<close>

definition bodies :: "(int \<times> int) list \<Rightarrow> body list" where
  "bodies rs = map (\<lambda>(r_begin, r_end). \<lparr>b_iter = r_begin, b_end = r_end, b_pc = At_call\<rparr>) rs"

subsection \<open>Aggregation\<close>

text \<open>
  \<^verbatim>\<open>x.segment(start, n) = src\<close> and \<^verbatim>\<open>m.middleCols(start, n) = src\<close>. A block is not
  resizable: Eigen asserts that the block lies inside the array and that the source has
  the block's shape. \<open>None\<close> is a failed assertion.
\<close>

definition segment_assign :: "real list \<Rightarrow> nat \<Rightarrow> nat \<Rightarrow> real list \<Rightarrow> real list option" where
  "segment_assign x start n src =
     (if start + n \<le> length x \<and> length src = n
      then Some (take start x @ src @ drop (start + n) x) else None)"

definition middleCols_assign :: "matrix \<Rightarrow> nat \<Rightarrow> nat \<Rightarrow> matrix \<Rightarrow> matrix option" where
  "middleCols_assign m start n src =
     (if start + n \<le> ncols m \<and> ncols src = n \<and> nrows src = nrows m
      then Some (m\<lparr>mcols := take start (mcols m) @ mcols src @ drop (start + n) (mcols m)\<rparr>)
      else None)"

text \<open>The filling loop, lines 162 to 169, from index \<open>i\<close> on.\<close>

function fill_loop ::
  "real list list \<Rightarrow> matrix list \<Rightarrow> nat \<Rightarrow> nat \<Rightarrow> nat \<Rightarrow> real list \<Rightarrow> matrix
     \<Rightarrow> (real list \<times> matrix) option" where
  "fill_loop ilr isa successful_pathfinders i filling_start_row lp_ratios samples =
     (if i < successful_pathfinders then
        (let individ_num_samples = length (ilr ! i) in
         case segment_assign lp_ratios filling_start_row individ_num_samples (ilr ! i) of
           None \<Rightarrow> None
         | Some lp_ratios' \<Rightarrow>
             (case middleCols_assign samples filling_start_row individ_num_samples (isa ! i) of
                None \<Rightarrow> None
              | Some samples' \<Rightarrow>
                  fill_loop ilr isa successful_pathfinders (i + 1)
                    (filling_start_row + individ_num_samples) lp_ratios' samples'))
      else Some (lp_ratios, samples))"
  by pat_completeness auto
termination
  by (relation "measure (\<lambda>(ilr, isa, n, i, s, x, m). n - i)") auto

declare fill_loop.simps [simp del]

text \<open>
  Lines 155 to 169: they leave \<open>num_returned_samples\<close>, \<open>lp_ratios\<close> and \<open>samples\<close>.
  The caller has checked that \<open>individual_samples\<close> is not empty; both vectors receive
  one entry per successful path, so they have the same length. \<open>u\<close> is what the fresh
  arrays hold.
\<close>

definition aggregate ::
  "real \<Rightarrow> real list list \<Rightarrow> matrix list \<Rightarrow> (nat \<times> real list \<times> matrix) option" where
  "aggregate u ilr isa =
     (let num_returned_samples = sum_list (map length ilr);
          lp_ratios = replicate num_returned_samples u;
          samples = \<lparr>nrows = nrows (isa ! 0),
                     mcols = replicate num_returned_samples (replicate (nrows (isa ! 0)) u)\<rparr>
      in case fill_loop ilr isa (length isa) 0 0 lp_ratios samples of
           None \<Rightarrow> None
         | Some (lp_ratios', samples') \<Rightarrow> Some (num_returned_samples, lp_ratios', samples'))"

subsection \<open>Resampling\<close>

definition tail_len :: "nat \<Rightarrow> real" where
  "tail_len num_returned_samples =
     min (0.2 * real num_returned_samples) (3 * sqrt (real num_returned_samples))"

datatype loop_end = Loop_done | Loop_assert | Loop_running

text \<open>
  Lines 184 to 186: \<^verbatim>\<open>for (size_t i = 0; i <= num_multi_draws - 1; ++i)\<close>. The bound
  \<^verbatim>\<open>num_multi_draws - 1\<close> is an \<^verbatim>\<open>int\<close>; the comparison converts it to \<^verbatim>\<open>size_t\<close>.
  The loop need not end, so it runs on fuel: one unit per iteration, and
  \<open>Loop_running\<close> when the fuel is used up with the condition still true.
  \<^verbatim>\<open>samples.col(j)\<close> asserts that \<open>j\<close> is a column of the matrix.
\<close>

primrec draw_loop ::
  "'g env \<Rightarrow> size_t \<Rightarrow> real list \<Rightarrow> matrix \<Rightarrow> nat \<Rightarrow> size_t \<Rightarrow> 'g \<Rightarrow> event list
     \<Rightarrow> event list \<times> loop_end" where
  "draw_loop env bound weight_vals samples 0 i rng tr =
     (if i \<le> bound then (tr, Loop_running) else (tr, Loop_done))"
| "draw_loop env bound weight_vals samples (Suc fuel) i rng tr =
     (if i \<le> bound then
        (case discrete_draw env weight_vals rng of
           (j, rng') \<Rightarrow>
             if 0 \<le> j \<and> j < int (ncols samples)
             then draw_loop env bound weight_vals samples fuel (i + 1) rng'
                    (tr @ [ParamWrite (Values (mcols samples ! nat j))])
             else (tr, Loop_assert))
      else (tr, Loop_done))"

subsection \<open>The service function\<close>

definition time_header :: string where
  "time_header = ''Elapsed Time: ''"

definition timing_report :: "'g env \<Rightarrow> real \<Rightarrow> real \<Rightarrow> event list" where
  "timing_report env pathfinders_delta_time psis_delta_time =
     [ParamWrite Blank,
      ParamWrite (Text (time_header @ to_string_double env pathfinders_delta_time
                        @ '' seconds (Pathfinders)'')),
      ParamWrite (Text (replicate (length time_header) CHR '' ''
                        @ to_string_double env psis_delta_time @ '' seconds (PSIS)'')),
      ParamWrite (Text (replicate (length time_header) CHR '' ''
                        @ to_string_double env (pathfinders_delta_time + psis_delta_time)
                        @ '' seconds (Total)'')),
      ParamWrite Blank]"

definition header :: "'g env \<Rightarrow> string list" where
  "header env = constrained_param_names env @ [''lp_approx__'', ''lp__'']"

text \<open>
  \<open>pathfinder_lbfgs_multi env a rs fuel\<close>: the run with the sub-ranges \<open>rs\<close> and
  \<open>fuel\<close> iterations allowed to the drawing loop. It gives the trace and how the call
  ended: it returned a code, an Eigen assertion failed, an exception left the function,
  or the drawing loop was still running when the fuel was used up.
  \<^verbatim>\<open>reserve(num_paths)\<close> converts its argument to an unsigned size; a negative
  \<^verbatim>\<open>num_paths\<close> becomes a size near \<open>2 ^ 64\<close>, and the reservation throws.
\<close>

definition pathfinder_lbfgs_multi ::
  "'g env \<Rightarrow> args \<Rightarrow> (int \<times> int) list \<Rightarrow> nat \<Rightarrow> event list \<times> outcome" where
  "pathfinder_lbfgs_multi env a rs fuel =
     (let start_pathfinders_time = now env 0;
          param_names = header env;
          tr0 = [ParamWrite (Names param_names), DiagWrite (Names param_names)]
      in if num_paths a < 0 then (tr0, Threw)
      else
        let st = parallel_for env a rs
                   \<lparr>trace = tr0, individual_lp_ratios = [], individual_samples = [],
                    lp_calls = 0\<rparr>;
            end_pathfinders_time = now env 1;
            pathfinders_delta_time =
              duration_seconds start_pathfinders_time end_pathfinders_time;
            start_psis_time = now env 2;
            successful_pathfinders = length (individual_samples st)
        in if successful_pathfinders = 0
           then (trace st @ [LogInfo ''No pathfinders ran successfully''],
                 Returned (SOFTWARE env))
           else
             let tr1 = (if refresh a \<noteq> 0
                        then trace st
                             @ [LogInfo (''Total log probability function evaluations:''
                                         @ digits_of (unat (lp_calls st)))]
                        else trace st)
             in case aggregate (junk env) (individual_lp_ratios st) (individual_samples st) of
                  None \<Rightarrow> (tr1, Eigen_assert)
                | Some (num_returned_samples, lp_ratios, samples) \<Rightarrow>
                    let weight_vals =
                          psis_weights env lp_ratios (tail_len num_returned_samples);
                        rng = create_rng env (random_seed a) (path a);
                        tr2 = tr1 @ [PsisCall lp_ratios (tail_len num_returned_samples),
                                     CreateRng (random_seed a) (path a)]
                    in case draw_loop env (word_of_int (num_multi_draws a - 1)) weight_vals
                              samples fuel 0 rng tr2 of
                         (tr3, Loop_running) \<Rightarrow> (tr3, Still_running)
                       | (tr3, Loop_assert) \<Rightarrow> (tr3, Eigen_assert)
                       | (tr3, Loop_done) \<Rightarrow>
                           (tr3 @ timing_report env pathfinders_delta_time
                                    (duration_seconds start_psis_time (now env 3)),
                            Returned 0))"

subsection \<open>Reading a trace\<close>

fun param_out :: "event list \<Rightarrow> row list" where
  "param_out [] = []"
| "param_out (ParamWrite r # es) = r # param_out es"
| "param_out (e # es) = param_out es"

fun diag_out :: "event list \<Rightarrow> row list" where
  "diag_out [] = []"
| "diag_out (DiagWrite r # es) = r # diag_out es"
| "diag_out (e # es) = diag_out es"

fun log_out :: "event list \<Rightarrow> string list" where
  "log_out [] = []"
| "log_out (LogInfo s # es) = s # log_out es"
| "log_out (e # es) = log_out es"

fun draw_rows :: "event list \<Rightarrow> real list list" where
  "draw_rows [] = []"
| "draw_rows (ParamWrite (Values v) # es) = v # draw_rows es"
| "draw_rows (e # es) = draw_rows es"

fun paths_run :: "event list \<Rightarrow> int list" where
  "paths_run [] = []"
| "paths_run (RunPath iter s k # es) = iter # paths_run es"
| "paths_run (e # es) = paths_run es"

fun path_streams :: "event list \<Rightarrow> (int \<times> uint \<times> uint) list" where
  "path_streams [] = []"
| "path_streams (RunPath iter s k # es) = (iter, s, k) # path_streams es"
| "path_streams (e # es) = path_streams es"

fun rngs_created :: "event list \<Rightarrow> (uint \<times> uint) list" where
  "rngs_created [] = []"
| "rngs_created (CreateRng s k # es) = (s, k) # rngs_created es"
| "rngs_created (e # es) = rngs_created es"

fun psis_calls :: "event list \<Rightarrow> (real list \<times> real) list" where
  "psis_calls [] = []"
| "psis_calls (PsisCall r t # es) = (r, t) # psis_calls es"
| "psis_calls (e # es) = psis_calls es"

text \<open>The result of the single-path run that \<open>range_body\<close> makes for index \<open>iter\<close>.\<close>

definition path_result :: "'g env \<Rightarrow> args \<Rightarrow> int \<Rightarrow> path_ret" where
  "path_result env a iter =
     pathfinder_lbfgs_single env (random_seed a) (path a + word_of_int iter) iter"

definition succeeded :: "'g env \<Rightarrow> args \<Rightarrow> int \<Rightarrow> bool" where
  "succeeded env a iter \<longleftrightarrow> ret_code (path_result env a iter) \<noteq> SOFTWARE env"

text \<open>The state in which \<open>parallel_for\<close> starts.\<close>

definition orch_init :: "'g env \<Rightarrow> orch" where
  "orch_init env =
     \<lparr>trace = [ParamWrite (Names (header env)), DiagWrite (Names (header env))],
      individual_lp_ratios = [], individual_samples = [], lp_calls = 0\<rparr>"

text \<open>
  The contract of \<^verbatim>\<open>discrete_distribution\<close> that the drawing loop relies on: every
  index it gives is a column of the aggregated samples.
\<close>

definition draws_in_range :: "'g env \<Rightarrow> real list \<Rightarrow> matrix \<Rightarrow> bool" where
  "draws_in_range env w samples \<longleftrightarrow>
     (\<forall>g. 0 \<le> fst (discrete_draw env w g) \<and> fst (discrete_draw env w g) < int (ncols samples))"

subsection \<open>Invariants of the parallel phase\<close>

text \<open>The two ways in which one iteration of \<open>range_body\<close> changes the state.\<close>

definition path_failed :: "args \<Rightarrow> int \<Rightarrow> orch \<Rightarrow> orch" where
  "path_failed a iter st =
     st\<lparr>trace := trace st @ [RunPath iter (random_seed a) (path a + word_of_int iter),
          LogInfo (''Pathfinder iteration: '' @ to_string iter @ '' failed.'')]\<rparr>"

definition path_ok :: "'g env \<Rightarrow> args \<Rightarrow> int \<Rightarrow> orch \<Rightarrow> orch" where
  "path_ok env a iter st =
     st\<lparr>trace := trace st @ [RunPath iter (random_seed a) (path a + word_of_int iter)],
        individual_lp_ratios := individual_lp_ratios st @ [lp_ratio (path_result env a iter)],
        individual_samples := individual_samples st @ [draws (path_result env a iter)],
        lp_calls := lp_calls st + evals (path_result env a iter)\<rparr>"

definition frame :: "event list \<Rightarrow> orch \<Rightarrow> bool" where
  "frame tr0 st \<longleftrightarrow>
     (\<exists>ext. trace st = tr0 @ ext) \<and>
     param_out (trace st) = param_out tr0 \<and> diag_out (trace st) = diag_out tr0 \<and>
     draw_rows (trace st) = draw_rows tr0 \<and>
     psis_calls (trace st) = psis_calls tr0 \<and> rngs_created (trace st) = rngs_created tr0"

definition in_step :: "'g env \<Rightarrow> args \<Rightarrow> orch \<Rightarrow> bool" where
  "in_step env a st \<longleftrightarrow>
     individual_lp_ratios st
       = map (\<lambda>i. lp_ratio (path_result env a i)) (filter (succeeded env a) (paths_run (trace st))) \<and>
     individual_samples st
       = map (\<lambda>i. draws (path_result env a i)) (filter (succeeded env a) (paths_run (trace st))) \<and>
     lp_calls st
       = sum_list (map (\<lambda>i. evals (path_result env a i))
                     (filter (succeeded env a) (paths_run (trace st))))"

definition streams_ok :: "args \<Rightarrow> (int \<times> int) list \<Rightarrow> event list \<Rightarrow> bool" where
  "streams_ok a rs tr \<longleftrightarrow>
     (\<forall>(i, s, k) \<in> set (path_streams tr).
        s = random_seed a \<and> k = path a + word_of_int i \<and> (\<exists>(b, e) \<in> set rs. b \<le> i \<and> i < e))"

subsection \<open>Phases of the run\<close>

text \<open>The state after the parallel phase.\<close>

definition after_paths :: "'g env \<Rightarrow> args \<Rightarrow> (int \<times> int) list \<Rightarrow> orch" where
  "after_paths env a rs = parallel_for env a rs (orch_init env)"

text \<open>The indices of the paths that were run, in the order of their runs.\<close>

definition paths_executed :: "'g env \<Rightarrow> args \<Rightarrow> (int \<times> int) list \<Rightarrow> int list" where
  "paths_executed env a rs = paths_run (trace (after_paths env a rs))"

text \<open>The trace after lines 151 to 154.\<close>

definition log_total :: "args \<Rightarrow> orch \<Rightarrow> event list" where
  "log_total a st =
     (if refresh a \<noteq> 0
      then trace st @ [LogInfo (''Total log probability function evaluations:''
                               @ digits_of (unat (lp_calls st)))]
      else trace st)"

text \<open>The aggregated ratios and samples, when the run gets that far.\<close>

definition aggregated ::
  "'g env \<Rightarrow> args \<Rightarrow> (int \<times> int) list \<Rightarrow> (nat \<times> real list \<times> matrix) option" where
  "aggregated env a rs =
     (if num_paths a < 0 \<or> individual_samples (after_paths env a rs) = [] then None
      else aggregate (junk env) (individual_lp_ratios (after_paths env a rs))
             (individual_samples (after_paths env a rs)))"

text \<open>
  Lines 170 to 186 on the \<open>n\<close> returned samples with ratios \<open>r\<close> and draws \<open>S\<close>.
\<close>

definition resample ::
  "'g env \<Rightarrow> args \<Rightarrow> (int \<times> int) list \<Rightarrow> nat \<Rightarrow> nat \<Rightarrow> real list \<Rightarrow> matrix
     \<Rightarrow> event list \<times> loop_end" where
  "resample env a rs fuel n r S =
     draw_loop env (word_of_int (num_multi_draws a - 1))
       (psis_weights env r (tail_len n)) S fuel 0
       (create_rng env (random_seed a) (path a))
       (log_total a (after_paths env a rs)
        @ [PsisCall r (tail_len n), CreateRng (random_seed a) (path a)])"

subsection \<open>A small environment\<close>

text \<open>
  Path \<open>iter\<close> fails when it is in \<open>failing\<close>; it gives one ratio, one draw of three
  rows and \<open>5 + iter\<close> evaluations. Every weight is \<open>w\<close>. The generator state counts the
  draws, and the \<open>g\<close>-th draw picks column \<open>g mod n\<close>. Each reading of the clock is 1.5
  seconds after the one before.
\<close>

definition demo_single :: "int list \<Rightarrow> uint \<Rightarrow> uint \<Rightarrow> int \<Rightarrow> path_ret" where
  "demo_single failing s k iter =
     \<lparr>ret_code = (if iter \<in> set failing then 70 else 0),
      lp_ratio = [real_of_int iter],
      draws = \<lparr>nrows = 3, mcols = [[real_of_int iter, 1, 2]]\<rparr>,
      evals = 5 + word_of_int iter\<rparr>"

definition demo_to_string :: "real \<Rightarrow> string" where
  "demo_to_string x =
     (let f = digits_of (nat \<lfloor>x * 1000000\<rfloor> mod 1000000)
      in digits_of (nat \<lfloor>x\<rfloor>) @ ''.'' @ drop (length f) ''000000'' @ f)"

definition demo_env :: "int list \<Rightarrow> real \<Rightarrow> nat env" where
  "demo_env failing w =
     \<lparr>SOFTWARE = 70,
      constrained_param_names = [''theta''],
      pathfinder_lbfgs_single = demo_single failing,
      psis_weights = (\<lambda>r t. map (\<lambda>_. w) r),
      create_rng = (\<lambda>s k. 0),
      discrete_draw = (\<lambda>ws g. (int (g mod length ws), g + 1)),
      to_string_double = demo_to_string,
      now = (\<lambda>k. int k * 1500000000),
      junk = 0\<rparr>"

definition demo_args :: "int \<Rightarrow> int \<Rightarrow> args" where
  "demo_args m n =
     \<lparr>random_seed = 42, path = 7, refresh = 1, num_multi_draws = m, num_paths = n\<rparr>"

text \<open>
  The same environment with paths of unequal size, all successful: path 0 gives one
  draw, every other path two.
\<close>

definition uneven_single :: "uint \<Rightarrow> uint \<Rightarrow> int \<Rightarrow> path_ret" where
  "uneven_single s k iter =
     \<lparr>ret_code = 0,
      lp_ratio = (if iter = 0 then [0] else [real_of_int iter, real_of_int iter]),
      draws = \<lparr>nrows = 3,
               mcols = (if iter = 0 then [[0, 1, 2]]
                        else [[real_of_int iter, 1, 2], [real_of_int iter, 1, 2]])\<rparr>,
      evals = 5\<rparr>"

definition uneven_env :: "nat env" where
  "uneven_env = (demo_env [] 1)\<lparr>pathfinder_lbfgs_single := uneven_single\<rparr>"

section \<open>Lemmas\<close>

subsection \<open>Traces\<close>

lemma param_out_append [simp]: "param_out (xs @ ys) = param_out xs @ param_out ys"
  by (induction xs rule: param_out.induct) simp_all

lemma diag_out_append [simp]: "diag_out (xs @ ys) = diag_out xs @ diag_out ys"
  by (induction xs rule: diag_out.induct) simp_all

lemma log_out_append [simp]: "log_out (xs @ ys) = log_out xs @ log_out ys"
  by (induction xs rule: log_out.induct) simp_all

lemma draw_rows_append [simp]: "draw_rows (xs @ ys) = draw_rows xs @ draw_rows ys"
  by (induction xs rule: draw_rows.induct) simp_all

lemma paths_run_append [simp]: "paths_run (xs @ ys) = paths_run xs @ paths_run ys"
  by (induction xs rule: paths_run.induct) simp_all

lemma path_streams_append [simp]: "path_streams (xs @ ys) = path_streams xs @ path_streams ys"
  by (induction xs rule: path_streams.induct) simp_all

lemma rngs_created_append [simp]: "rngs_created (xs @ ys) = rngs_created xs @ rngs_created ys"
  by (induction xs rule: rngs_created.induct) simp_all

lemma psis_calls_append [simp]: "psis_calls (xs @ ys) = psis_calls xs @ psis_calls ys"
  by (induction xs rule: psis_calls.induct) simp_all

lemma paths_run_path_streams: "paths_run tr = map fst (path_streams tr)"
  by (induction tr rule: path_streams.induct) simp_all

lemma rows_only [simp]:
  "param_out (map (\<lambda>v. ParamWrite (Values v)) vs) = map Values vs"
  "draw_rows (map (\<lambda>v. ParamWrite (Values v)) vs) = vs"
  "diag_out (map (\<lambda>v. ParamWrite (Values v)) vs) = []"
  "psis_calls (map (\<lambda>v. ParamWrite (Values v)) vs) = []"
  "rngs_created (map (\<lambda>v. ParamWrite (Values v)) vs) = []"
  "path_streams (map (\<lambda>v. ParamWrite (Values v)) vs) = []"
  by (induction vs) simp_all

lemma log_out_rows [simp]: "log_out (map (\<lambda>v. ParamWrite (Values v)) vs) = []"
  by (induction vs) simp_all

subsection \<open>The parallel phase\<close>

text \<open>One step of the loop, as an equation for each way it can go.\<close>

lemma range_body_done: "\<not> iter < r_end \<Longrightarrow> range_body env a iter r_end st = st"
  by (subst range_body.simps) simp

lemma range_body_failed:
  "iter < r_end \<Longrightarrow> \<not> succeeded env a iter \<Longrightarrow>
   range_body env a iter r_end st = path_failed a iter st"
  by (subst range_body.simps) (simp add: succeeded_def path_result_def path_failed_def Let_def)

lemma range_body_ok:
  "iter < r_end \<Longrightarrow> succeeded env a iter \<Longrightarrow>
   range_body env a iter r_end st = range_body env a (iter + 1) r_end (path_ok env a iter st)"
  by (subst range_body.simps) (simp add: succeeded_def path_result_def path_ok_def Let_def)

text \<open>A rule for invariants of the parallel phase.\<close>

lemma range_body_induct [consumes 1, case_names failed ok]:
  assumes "P st"
    and "\<And>iter st. P st \<Longrightarrow> b \<le> iter \<Longrightarrow> iter < r_end \<Longrightarrow> \<not> succeeded env a iter \<Longrightarrow>
           P (path_failed a iter st)"
    and "\<And>iter st. P st \<Longrightarrow> b \<le> iter \<Longrightarrow> iter < r_end \<Longrightarrow> succeeded env a iter \<Longrightarrow>
           P (path_ok env a iter st)"
  shows "b \<le> iter \<Longrightarrow> P (range_body env a iter r_end st)"
  using assms(1)
proof (induction "nat (r_end - iter)" arbitrary: iter st)
  case 0
  then have "\<not> iter < r_end" by simp
  with 0 show ?case by (simp add: range_body_done)
next
  case (Suc n)
  then have lt: "iter < r_end" by linarith
  show ?case
  proof (cases "succeeded env a iter")
    case False
    with lt Suc.prems assms(2) show ?thesis by (simp add: range_body_failed)
  next
    case True
    have "n = nat (r_end - (iter + 1))" using Suc.hyps(2) by linarith
    moreover have "b \<le> iter + 1" using Suc.prems(1) by simp
    moreover note assms(3) [OF Suc.prems(2) Suc.prems(1) lt True]
    ultimately show ?thesis
      using Suc.hyps(1) lt True by (simp add: range_body_ok)
  qed
qed

lemma parallel_for_induct [consumes 1, case_names failed ok]:
  assumes "P st"
    and "\<And>b e iter st. P st \<Longrightarrow> (b, e) \<in> set rs \<Longrightarrow> b \<le> iter \<Longrightarrow> iter < e \<Longrightarrow>
           \<not> succeeded env a iter \<Longrightarrow> P (path_failed a iter st)"
    and "\<And>b e iter st. P st \<Longrightarrow> (b, e) \<in> set rs \<Longrightarrow> b \<le> iter \<Longrightarrow> iter < e \<Longrightarrow>
           succeeded env a iter \<Longrightarrow> P (path_ok env a iter st)"
  shows "P (parallel_for env a rs st)"
  using assms
proof (induction rs arbitrary: st)
  case Nil
  then show ?case by simp
next
  case (Cons r rs)
  obtain b e where r: "r = (b, e)" by (cases r)
  have here: "P (range_body env a b e st)"
  proof (rule range_body_induct [where b = b and P = P])
    show "P st" by (rule Cons.prems(1))
    show "b \<le> b" by simp
  next
    fix iter st' assume "P st'" "b \<le> iter" "iter < e" "\<not> succeeded env a iter"
    then show "P (path_failed a iter st')"
      using Cons.prems(2) [of st' b e iter] r by simp
  next
    fix iter st' assume "P st'" "b \<le> iter" "iter < e" "succeeded env a iter"
    then show "P (path_ok env a iter st')"
      using Cons.prems(3) [of st' b e iter] r by simp
  qed
  have "P (parallel_for env a rs (range_body env a b e st))"
  proof (rule Cons.IH [OF here])
    fix b' e' iter st'
    assume "P st'" "(b', e') \<in> set rs" "b' \<le> iter" "iter < e'" "\<not> succeeded env a iter"
    then show "P (path_failed a iter st')"
      using Cons.prems(2) [of st' b' e' iter] by simp
  next
    fix b' e' iter st'
    assume "P st'" "(b', e') \<in> set rs" "b' \<le> iter" "iter < e'" "succeeded env a iter"
    then show "P (path_ok env a iter st')"
      using Cons.prems(3) [of st' b' e' iter] by simp
  qed
  then show ?case by (simp add: r)
qed

text \<open>What the parallel phase leaves untouched, and what it keeps in step.\<close>

lemma parallel_for_frame: "frame (trace st) (parallel_for env a rs st)"
  by (rule parallel_for_induct [where P = "frame (trace st)"])
     (auto simp add: frame_def path_failed_def path_ok_def)

lemma parallel_for_in_step: "in_step env a st \<Longrightarrow> in_step env a (parallel_for env a rs st)"
  by (induction rule: parallel_for_induct) (simp_all add: in_step_def path_failed_def path_ok_def)

lemma in_step_init: "in_step env a (orch_init env)"
  by (simp add: in_step_def orch_init_def)

lemma parallel_for_streams:
  "streams_ok a rs (trace st) \<Longrightarrow> streams_ok a rs (trace (parallel_for env a rs st))"
  by (induction rule: parallel_for_induct)
     (auto simp add: streams_ok_def path_failed_def path_ok_def)

lemma parallel_for_same_length:
  "length (individual_lp_ratios st) = length (individual_samples st) \<Longrightarrow>
   length (individual_lp_ratios (parallel_for env a rs st))
     = length (individual_samples (parallel_for env a rs st))"
  by (induction rule: parallel_for_induct) (simp_all add: path_failed_def path_ok_def)

lemma splits_range_indices:
  assumes "splits_range n rs" "(b, e) \<in> set rs" "b \<le> i" "i < e"
  shows "0 \<le> i \<and> i < n"
proof -
  have "i \<in> set (concat (map (\<lambda>(b, e). [b..e - 1]) rs))" using assms(2-4) by force
  then have "i \<in> set (sort (concat (map (\<lambda>(b, e). [b..e - 1]) rs)))" by simp
  then have "i \<in> set [0..n - 1]" using assms(1) by (simp only: splits_range_def)
  then show ?thesis by simp
qed

lemma splits_range_empty:
  assumes "splits_range n rs" "n \<le> 0"
  shows "rs = []"
proof (cases rs)
  case Nil
  then show ?thesis .
next
  case (Cons r rs')
  obtain b e where r: "r = (b, e)" by (cases r)
  have "b < e" using assms(1) Cons r by (simp add: splits_range_def)
  then have "0 \<le> b \<and> b < n"
    using splits_range_indices [OF assms(1), of b e b] Cons r by simp
  with assms(2) show ?thesis by simp
qed

text \<open>Without a schedule the overlapping phase is the phase that runs the bodies in turn.\<close>

lemma finish_body_done: "\<not> b_iter b < b_end b \<Longrightarrow> finish_body env a b st = st"
  by (subst finish_body.simps) simp

lemma finish_body_step:
  "b_iter b < b_end b \<Longrightarrow>
   finish_body env a b st = finish_body env a (fst (body_step env a b st)) (snd (body_step env a b st))"
  by (subst finish_body.simps) (simp add: case_prod_beta)

lemma finish_body_range_body:
  "finish_body env a \<lparr>b_iter = iter, b_end = r_end, b_pc = At_call\<rparr> st
     = range_body env a iter r_end st"
proof (induction "nat (r_end - iter)" arbitrary: iter st)
  case 0
  then show ?case by (simp add: finish_body_done range_body_done)
next
  case (Suc n)
  then have lt: "iter < r_end" by linarith
  show ?case
  proof (cases "succeeded env a iter")
    case False
    then show ?thesis
      using lt
      by (simp add: finish_body_step body_step_def Let_def finish_body_done range_body_failed
          path_failed_def succeeded_def path_result_def)
  next
    case True
    have n: "n = nat (r_end - (iter + 1))" using Suc.hyps(2) by linarith
    have "finish_body env a \<lparr>b_iter = iter, b_end = r_end, b_pc = At_call\<rparr> st
            = finish_body env a \<lparr>b_iter = iter + 1, b_end = r_end, b_pc = At_call\<rparr>
                (path_ok env a iter st)"
      using lt True
      by (simp add: finish_body_step body_step_def Let_def path_ok_def succeeded_def
          path_result_def)
    then show ?thesis using Suc.hyps(1) [OF n] lt True by (simp add: range_body_ok)
  qed
qed

lemma join_all_parallel_for: "join_all env a (bodies rs) st = parallel_for env a rs st"
  by (induction rs arbitrary: st) (auto simp: bodies_def finish_body_range_body)

lemma concurrent_for_no_schedule:
  "concurrent_for env a [] (bodies rs) st = parallel_for env a rs st"
  by (simp add: join_all_parallel_for)

subsection \<open>Aggregation\<close>

lemma segment_assign_length:
  "segment_assign x start n src = Some x' \<Longrightarrow> length x' = length x"
  by (auto simp: segment_assign_def split: if_splits)

lemma middleCols_assign_shape:
  "middleCols_assign m start n src = Some m' \<Longrightarrow> ncols m' = ncols m \<and> nrows m' = nrows m"
  by (auto simp: middleCols_assign_def ncols_def split: if_splits)

text \<open>The filling loop never changes the sizes of the two arrays.\<close>

lemma fill_loop_length:
  "fill_loop ilr isa n i start x S = Some (x', S') \<Longrightarrow> length x' = length x \<and> ncols S' = ncols S"
proof (induction "n - i" arbitrary: i start x S)
  case 0
  then have "\<not> i < n" by simp
  with 0 show ?case by (subst (asm) fill_loop.simps) simp
next
  case (Suc k)
  then have lt: "i < n" by simp
  from Suc.prems lt obtain x1 S1
    where seg: "segment_assign x start (length (ilr ! i)) (ilr ! i) = Some x1"
      and mid: "middleCols_assign S start (length (ilr ! i)) (isa ! i) = Some S1"
      and rest: "fill_loop ilr isa n (i + 1) (start + length (ilr ! i)) x1 S1 = Some (x', S')"
    by (subst (asm) fill_loop.simps) (auto simp: Let_def split: option.splits)
  have "k = n - (i + 1)" using Suc.hyps(2) by simp
  from Suc.hyps(1) [OF this rest] segment_assign_length [OF seg] middleCols_assign_shape [OF mid]
  show ?case by simp
qed

lemma aggregate_length:
  assumes "aggregate u ilr isa = Some (n, r, S)"
  shows "n = sum_list (map length ilr) \<and> length r = n \<and> ncols S = n"
proof -
  from assms have n: "n = sum_list (map length ilr)"
    and f: "fill_loop ilr isa (length isa) 0 0 (replicate n u)
              \<lparr>nrows = nrows (isa ! 0), mcols = replicate n (replicate (nrows (isa ! 0)) u)\<rparr>
            = Some (r, S)"
    by (auto simp: aggregate_def Let_def split: option.splits)
  from fill_loop_length [OF f] n show ?thesis by (simp add: ncols_def)
qed

lemma fill_loop_concat:
  assumes "length ilr = n" "length isa = n" "i \<le> n"
    and "\<forall>j. i \<le> j \<and> j < n \<longrightarrow> ncols (isa ! j) = length (ilr ! j) \<and> nrows (isa ! j) = nrows S"
    and "length x = start + sum_list (map length (drop i ilr))"
    and "ncols S = start + sum_list (map length (drop i ilr))"
  shows "fill_loop ilr isa n i start x S
           = Some (take start x @ concat (drop i ilr),
                   S\<lparr>mcols := take start (mcols S) @ concat (map mcols (drop i isa))\<rparr>)"
  using assms
proof (induction "n - i" arbitrary: i start x S)
  case 0
  then have "i = n" by simp
  with 0 show ?case by (subst fill_loop.simps) (simp add: ncols_def)
next
  case (Suc k)
  then have lt: "i < n" by simp
  let ?r = "ilr ! i" and ?m = "isa ! i"
  have dr: "drop i ilr = ?r # drop (Suc i) ilr" using lt Suc.prems(1) by (simp add: Cons_nth_drop_Suc)
  have dm: "drop i isa = ?m # drop (Suc i) isa" using lt Suc.prems(2) by (simp add: Cons_nth_drop_Suc)
  have shape: "ncols ?m = length ?r" "nrows ?m = nrows S" using Suc.prems(4) lt by simp_all
  let ?x' = "take start x @ ?r @ drop (start + length ?r) x"
  let ?S' = "S\<lparr>mcols := take start (mcols S) @ mcols ?m @ drop (start + length ?r) (mcols S)\<rparr>"
  have seg: "segment_assign x start (length ?r) ?r = Some ?x'"
    using Suc.prems(5) dr by (simp add: segment_assign_def)
  have mid: "middleCols_assign S start (length ?r) ?m = Some ?S'"
    using Suc.prems(6) dr shape by (simp add: middleCols_assign_def)
  have step: "fill_loop ilr isa n i start x S
                = fill_loop ilr isa n (i + 1) (start + length ?r) ?x' ?S'"
    using lt seg mid by (subst fill_loop.simps) (simp add: Let_def)
  have len_x: "length ?x' = (start + length ?r) + sum_list (map length (drop (i + 1) ilr))"
    using Suc.prems(5) dr by simp
  have len_S: "ncols ?S' = (start + length ?r) + sum_list (map length (drop (i + 1) ilr))"
    using Suc.prems(6) dr shape by (simp add: ncols_def)
  have rest: "\<forall>j. i + 1 \<le> j \<and> j < n \<longrightarrow>
                ncols (isa ! j) = length (ilr ! j) \<and> nrows (isa ! j) = nrows ?S'"
    using Suc.prems(4) by simp
  have "k = n - (i + 1)" using Suc.hyps(2) by simp
  from Suc.hyps(1) [OF this Suc.prems(1,2) _ rest len_x len_S] lt
  have "fill_loop ilr isa n (i + 1) (start + length ?r) ?x' ?S'
          = Some (take (start + length ?r) ?x' @ concat (drop (i + 1) ilr),
                  ?S'\<lparr>mcols := take (start + length ?r) (mcols ?S')
                                  @ concat (map mcols (drop (i + 1) isa))\<rparr>)"
    by simp
  moreover have "take (start + length ?r) ?x' = take start x @ ?r"
    using Suc.prems(5) by simp
  moreover have "take (start + length ?r) (mcols ?S') = take start (mcols S) @ mcols ?m"
    using Suc.prems(6) shape by (simp add: ncols_def)
  ultimately show ?case using step dr dm by simp
qed

lemma aggregate_concat:
  assumes "length ilr = length isa"
    and "\<forall>j < length isa. ncols (isa ! j) = length (ilr ! j) \<and> nrows (isa ! j) = nrows (isa ! 0)"
  shows "aggregate u ilr isa
           = Some (sum_list (map length ilr), concat ilr,
                   \<lparr>nrows = nrows (isa ! 0), mcols = concat (map mcols isa)\<rparr>)"
proof -
  let ?N = "sum_list (map length ilr)"
  let ?S = "\<lparr>nrows = nrows (isa ! 0), mcols = replicate ?N (replicate (nrows (isa ! 0)) u)\<rparr>"
  have "fill_loop ilr isa (length isa) 0 0 (replicate ?N u) ?S
          = Some (take 0 (replicate ?N u) @ concat (drop 0 ilr),
                  ?S\<lparr>mcols := take 0 (mcols ?S) @ concat (map mcols (drop 0 isa))\<rparr>)"
    using assms by (intro fill_loop_concat) (simp_all add: ncols_def)
  then show ?thesis by (simp add: aggregate_def Let_def)
qed

lemma concat_block:
  assumes "j < length xss"
  shows "take (length (xss ! j)) (drop (sum_list (map length (take j xss))) (concat xss)) = xss ! j"
proof -
  have "xss = take j xss @ xss ! j # drop (Suc j) xss"
    using assms by (rule id_take_nth_drop)
  then have "concat xss = concat (take j xss) @ xss ! j @ concat (drop (Suc j) xss)"
    by (metis concat.simps(2) concat_append)
  moreover have "length (concat (take j xss)) = sum_list (map length (take j xss))"
    by (rule length_concat)
  ultimately show ?thesis by simp
qed

subsection \<open>The drawing loop\<close>

lemma draws_in_rangeD:
  "draws_in_range env w S \<Longrightarrow> discrete_draw env w g = (j, g') \<Longrightarrow> 0 \<le> j \<and> j < int (ncols S)"
  unfolding draws_in_range_def by (metis fst_conv)

lemma draw_loop_trace:
  "\<exists>vs. fst (draw_loop env bound w S fuel i g tr) = tr @ map (\<lambda>v. ParamWrite (Values v)) vs
        \<and> set vs \<subseteq> set (mcols S)"
proof (induction fuel arbitrary: i g tr)
  case 0
  show ?case by (rule exI [of _ "[]"]) simp
next
  case (Suc fuel)
  obtain j g' where d: "discrete_draw env w g = (j, g')" by (cases "discrete_draw env w g")
  show ?case
  proof (cases "i \<le> bound \<and> 0 \<le> j \<and> j < int (ncols S)")
    case True
    let ?v = "mcols S ! nat j"
    from Suc.IH [of "i + 1" g' "tr @ [ParamWrite (Values ?v)]"]
    obtain vs where vs: "fst (draw_loop env bound w S fuel (i + 1) g' (tr @ [ParamWrite (Values ?v)]))
        = (tr @ [ParamWrite (Values ?v)]) @ map (\<lambda>v. ParamWrite (Values v)) vs"
      and sub: "set vs \<subseteq> set (mcols S)" by blast
    have "nat j < length (mcols S)" using True by (simp add: ncols_def nat_less_iff)
    then have "?v \<in> set (mcols S)" by simp
    with vs sub True d show ?thesis
      by (intro exI [of _ "?v # vs"]) simp
  next
    case False
    with d show ?thesis
      by (intro exI [of _ "[]"]) auto
  qed
qed

lemma draw_loop_never_done: "snd (draw_loop env (- 1) w S fuel i g tr) \<noteq> Loop_done"
  by (induction fuel arbitrary: i g tr) (auto split: prod.splits)

lemma draw_loop_running:
  "draws_in_range env w S \<Longrightarrow>
   snd (draw_loop env (- 1) w S fuel i g tr) = Loop_running \<and>
   length (draw_rows (fst (draw_loop env (- 1) w S fuel i g tr))) = length (draw_rows tr) + fuel"
  by (induction fuel arbitrary: i g tr) (auto split: prod.splits dest: draws_in_rangeD)

lemma unat_succ_below: "i \<le> bound \<Longrightarrow> bound \<noteq> - 1 \<Longrightarrow> unat (i + 1) = Suc (unat i)"
  for i bound :: size_t
  by (metis (no_types, lifting) add.commute add.right_neutral
    minus_add_cancel nle_le unatSuc word_order.extremum)

lemma draw_loop_count:
  "snd (draw_loop env bound w S fuel i g tr) = Loop_done \<Longrightarrow>
   length (draw_rows (fst (draw_loop env bound w S fuel i g tr)))
     = length (draw_rows tr) + (unat bound + 1 - unat i)"
proof (induction fuel arbitrary: i g tr)
  case 0
  then show ?case by (auto simp: word_le_nat_alt split: if_splits)
next
  case (Suc fuel)
  have ne: "bound \<noteq> - 1" using Suc.prems draw_loop_never_done by metis
  show ?case
  proof (cases "i \<le> bound")
    case False
    then show ?thesis by (auto simp: word_le_nat_alt)
  next
    case True
    obtain j g' where d: "discrete_draw env w g = (j, g')" by (cases "discrete_draw env w g")
    have ok: "0 \<le> j \<and> j < int (ncols S)" using Suc.prems True d by (auto split: if_splits)
    have "unat (i + 1) = Suc (unat i)" using True ne by (rule unat_succ_below)
    moreover have "unat i \<le> unat bound" using True by (simp add: word_le_nat_alt)
    ultimately show ?thesis using Suc.IH [of "i + 1" g'] Suc.prems True d ok by simp
  qed
qed

lemma draw_loop_done:
  "draws_in_range env w S \<Longrightarrow> bound \<noteq> - 1 \<Longrightarrow> unat bound + 1 - unat i \<le> fuel \<Longrightarrow>
   snd (draw_loop env bound w S fuel i g tr) = Loop_done"
proof (induction fuel arbitrary: i g tr)
  case 0
  then show ?case by (auto simp: word_le_nat_alt)
next
  case (Suc fuel)
  show ?case
  proof (cases "i \<le> bound")
    case False
    then show ?thesis by simp
  next
    case True
    obtain j g' where d: "discrete_draw env w g = (j, g')" by (cases "discrete_draw env w g")
    have ok: "0 \<le> j \<and> j < int (ncols S)" using Suc.prems(1) d by (rule draws_in_rangeD)
    have "unat (i + 1) = Suc (unat i)" using True Suc.prems(2) by (rule unat_succ_below)
    then have "unat bound + 1 - unat (i + 1) \<le> fuel" using Suc.prems(3) by simp
    then show ?thesis using Suc.IH [of "i + 1" g'] Suc.prems(1,2) True d ok by simp
  qed
qed

text \<open>The loop bound for a positive number of draws.\<close>

lemma unat_bound_of_draws:
  assumes "1 \<le> m" "m < 2 ^ 31"
  shows "unat (word_of_int (m - 1) :: size_t) = nat (m - 1)"
proof -
  have eq: "word_of_int (m - 1) = (word_of_nat (nat (m - 1)) :: size_t)" using assms by simp
  have "m - 1 < 2 ^ 64" using assms by simp
  then have "nat (m - 1) < 2 ^ LENGTH(64)" using assms by (simp add: nat_less_iff)
  then have "unat (word_of_nat (nat (m - 1)) :: size_t) = nat (m - 1)"
    by (simp only: unat_of_nat mod_less)
  with eq show ?thesis by (simp only:)
qed

lemma bound_of_draws_not_max:
  assumes "1 \<le> m" "m < 2 ^ 31"
  shows "(word_of_int (m - 1) :: size_t) \<noteq> - 1"
proof
  assume "(word_of_int (m - 1) :: size_t) = - 1"
  then have "(word_of_int m :: size_t) - 1 = - 1" by simp
  then have "(word_of_int m :: size_t) - 1 + 1 = - 1 + 1" by (simp only:)
  then have "(word_of_int m :: size_t) = 0" by simp
  then have "(2::int) ^ LENGTH(64) dvd m" by (simp only: word_of_int_eq_0_iff)
  then have "(2::int) ^ LENGTH(64) \<le> m" using assms(1) by (intro zdvd_imp_le) simp_all
  then show False using assms(2) by simp
qed

subsection \<open>The service function\<close>

lemma multi_unfold:
  "pathfinder_lbfgs_multi env a rs fuel =
     (if num_paths a < 0 then (trace (orch_init env), Threw)
      else if individual_samples (after_paths env a rs) = []
      then (trace (after_paths env a rs) @ [LogInfo ''No pathfinders ran successfully''],
            Returned (SOFTWARE env))
      else case aggregated env a rs of
             None \<Rightarrow> (log_total a (after_paths env a rs), Eigen_assert)
           | Some (n, r, S) \<Rightarrow>
               (case resample env a rs fuel n r S of
                  (tr, Loop_running) \<Rightarrow> (tr, Still_running)
                | (tr, Loop_assert) \<Rightarrow> (tr, Eigen_assert)
                | (tr, Loop_done) \<Rightarrow>
                    (tr @ timing_report env (duration_seconds (now env 0) (now env 1))
                            (duration_seconds (now env 2) (now env 3)),
                     Returned 0)))"
  by (simp add: pathfinder_lbfgs_multi_def after_paths_def orch_init_def log_total_def
      resample_def aggregated_def Let_def split: option.split prod.split loop_end.split)

lemma after_paths_frame: "frame (trace (orch_init env)) (after_paths env a rs)"
  by (simp add: after_paths_def parallel_for_frame)

lemma after_paths_in_step: "in_step env a (after_paths env a rs)"
  by (simp add: after_paths_def parallel_for_in_step in_step_init)

lemma after_paths_outputs:
  "param_out (trace (after_paths env a rs)) = [Names (header env)]"
  "diag_out (trace (after_paths env a rs)) = [Names (header env)]"
  "draw_rows (trace (after_paths env a rs)) = []"
  "psis_calls (trace (after_paths env a rs)) = []"
  "rngs_created (trace (after_paths env a rs)) = []"
  using after_paths_frame [of env a rs] by (simp_all add: frame_def orch_init_def)


lemma after_paths_streams: "streams_ok a rs (trace (after_paths env a rs))"
  unfolding after_paths_def
  by (rule parallel_for_streams) (simp add: streams_ok_def orch_init_def)

lemma log_total_outputs [simp]:
  "param_out (log_total a st) = param_out (trace st)"
  "diag_out (log_total a st) = diag_out (trace st)"
  "draw_rows (log_total a st) = draw_rows (trace st)"
  "psis_calls (log_total a st) = psis_calls (trace st)"
  "rngs_created (log_total a st) = rngs_created (trace st)"
  "path_streams (log_total a st) = path_streams (trace st)"
  by (simp_all add: log_total_def)


lemma timing_report_outputs [simp]:
  "diag_out (timing_report env s t) = []"
  "draw_rows (timing_report env s t) = []"
  "psis_calls (timing_report env s t) = []"
  "rngs_created (timing_report env s t) = []"
  "path_streams (timing_report env s t) = []"
  by (simp_all add: timing_report_def)

lemma log_out_timing_report [simp]: "log_out (timing_report env s t) = []"
  by (simp add: timing_report_def)

lemma resample_trace:
  "\<exists>vs. fst (resample env a rs fuel n r S)
          = log_total a (after_paths env a rs)
            @ [PsisCall r (tail_len n), CreateRng (random_seed a) (path a)]
            @ map (\<lambda>v. ParamWrite (Values v)) vs
        \<and> set vs \<subseteq> set (mcols S)"
  using draw_loop_trace [of env "word_of_int (num_multi_draws a - 1)"
      "psis_weights env r (tail_len n)" S fuel 0
      "create_rng env (random_seed a) (path a)"
      "log_total a (after_paths env a rs)
       @ [PsisCall r (tail_len n), CreateRng (random_seed a) (path a)]"]
  by (simp add: resample_def)

lemma resample_starts_clean:
  "draw_rows (log_total a (after_paths env a rs)
              @ [PsisCall r t, CreateRng (random_seed a) (path a)]) = []"
  by (simp add: after_paths_outputs)

lemma aggregated_length:
  "aggregated env a rs = Some (n, r, S) \<Longrightarrow> length r = n \<and> ncols S = n"
  by (auto simp: aggregated_def split: if_splits dest: aggregate_length)

lemma after_paths_paired:
  "length (individual_lp_ratios (after_paths env a rs))
     = length (individual_samples (after_paths env a rs))"
  unfolding after_paths_def by (rule parallel_for_same_length) (simp add: orch_init_def)

text \<open>
  In a run the two vectors hold the results of the same paths in the same order, so the
  aggregation succeeds as soon as every path that ran gave a result of the right shape.
\<close>

lemma aggregated_of_run:
  assumes "0 \<le> num_paths a" and "individual_samples (after_paths env a rs) \<noteq> []"
    and "\<forall>i \<in> set (paths_executed env a rs).
           length (lp_ratio (path_result env a i)) = ncols (draws (path_result env a i))
           \<and> nrows (draws (path_result env a i)) = d"
  shows "aggregated env a rs
           = Some (sum_list (map length (individual_lp_ratios (after_paths env a rs))),
                   concat (individual_lp_ratios (after_paths env a rs)),
                   \<lparr>nrows = d, mcols = concat (map mcols (individual_samples (after_paths env a rs)))\<rparr>)"
proof -
  let ?ok = "filter (succeeded env a) (paths_executed env a rs)"
  let ?ilr = "individual_lp_ratios (after_paths env a rs)"
  let ?isa = "individual_samples (after_paths env a rs)"
  have ilr: "?ilr = map (\<lambda>i. lp_ratio (path_result env a i)) ?ok"
    and isa: "?isa = map (\<lambda>i. draws (path_result env a i)) ?ok"
    using after_paths_in_step [of env a rs] by (simp_all add: in_step_def paths_executed_def)
  have shape: "ncols (?isa ! j) = length (?ilr ! j) \<and> nrows (?isa ! j) = d" if "j < length ?isa" for j
  proof -
    from that have j: "j < length ?ok" by (simp add: isa)
    then have "?ok ! j \<in> set (paths_executed env a rs)"
      using nth_mem [OF j] by simp
    with assms(3) j show ?thesis by (simp add: ilr isa)
  qed
  have "0 < length ?isa" using assms(2) by simp
  then have d: "nrows (?isa ! 0) = d" using shape by blast
  have "aggregate (junk env) ?ilr ?isa
          = Some (sum_list (map length ?ilr), concat ?ilr,
                  \<lparr>nrows = nrows (?isa ! 0), mcols = concat (map mcols ?isa)\<rparr>)"
    using after_paths_paired [of env a rs] shape d by (intro aggregate_concat) simp_all
  then show ?thesis using assms(1,2) d by (simp add: aggregated_def)
qed

text \<open>How the call ends, by the end of the drawing loop.\<close>

lemma multi_resampled:
  assumes "aggregated env a rs = Some (n, r, S)"
  shows "pathfinder_lbfgs_multi env a rs fuel =
           (case snd (resample env a rs fuel n r S) of
              Loop_running \<Rightarrow> (fst (resample env a rs fuel n r S), Still_running)
            | Loop_assert \<Rightarrow> (fst (resample env a rs fuel n r S), Eigen_assert)
            | Loop_done \<Rightarrow>
                (fst (resample env a rs fuel n r S)
                 @ timing_report env (duration_seconds (now env 0) (now env 1))
                     (duration_seconds (now env 2) (now env 3)),
                 Returned 0))"
proof -
  have "\<not> num_paths a < 0" "individual_samples (after_paths env a rs) \<noteq> []"
    using assms by (auto simp: aggregated_def split: if_splits)
  then show ?thesis
    using assms by (simp add: multi_unfold split: prod.split loop_end.split)
qed

lemma multi_not_resampled:
  assumes "aggregated env a rs = None"
  shows "pathfinder_lbfgs_multi env a rs fuel =
           (if num_paths a < 0 then (trace (orch_init env), Threw)
            else if individual_samples (after_paths env a rs) = []
            then (trace (after_paths env a rs) @ [LogInfo ''No pathfinders ran successfully''],
                  Returned (SOFTWARE env))
            else (log_total a (after_paths env a rs), Eigen_assert))"
  using assms by (simp add: multi_unfold)


lemma multi_psis_calls:
  "psis_calls (fst (pathfinder_lbfgs_multi env a rs fuel))
     = (case aggregated env a rs of None \<Rightarrow> [] | Some (n, r, S) \<Rightarrow> [(r, tail_len n)])"
proof (cases "aggregated env a rs")
  case None
  then show ?thesis
    by (simp add: multi_not_resampled orch_init_def after_paths_outputs)
next
  case (Some p)
  obtain n r S where p: "p = (n, r, S)" by (cases p)
  obtain vs where vs: "fst (resample env a rs fuel n r S)
          = log_total a (after_paths env a rs)
            @ [PsisCall r (tail_len n), CreateRng (random_seed a) (path a)]
            @ map (\<lambda>v. ParamWrite (Values v)) vs"
    using resample_trace by blast
  show ?thesis
    using Some p vs by (simp add: multi_resampled after_paths_outputs split: loop_end.split)
qed

lemma multi_rngs_created:
  "rngs_created (fst (pathfinder_lbfgs_multi env a rs fuel))
     = (case aggregated env a rs of None \<Rightarrow> [] | Some p \<Rightarrow> [(random_seed a, path a)])"
proof (cases "aggregated env a rs")
  case None
  then show ?thesis
    by (simp add: multi_not_resampled orch_init_def after_paths_outputs)
next
  case (Some p)
  obtain n r S where p: "p = (n, r, S)" by (cases p)
  obtain vs where vs: "fst (resample env a rs fuel n r S)
          = log_total a (after_paths env a rs)
            @ [PsisCall r (tail_len n), CreateRng (random_seed a) (path a)]
            @ map (\<lambda>v. ParamWrite (Values v)) vs"
    using resample_trace by blast
  show ?thesis
    using Some p vs by (simp add: multi_resampled after_paths_outputs split: loop_end.split)
qed

lemma multi_path_streams:
  "path_streams (fst (pathfinder_lbfgs_multi env a rs fuel))
     = (if num_paths a < 0 then [] else path_streams (trace (after_paths env a rs)))"
proof (cases "aggregated env a rs")
  case None
  then show ?thesis
    by (simp add: multi_not_resampled orch_init_def)
next
  case (Some p)
  obtain n r S where p: "p = (n, r, S)" by (cases p)
  obtain vs where vs: "fst (resample env a rs fuel n r S)
          = log_total a (after_paths env a rs)
            @ [PsisCall r (tail_len n), CreateRng (random_seed a) (path a)]
            @ map (\<lambda>v. ParamWrite (Values v)) vs"
    using resample_trace by blast
  have "\<not> num_paths a < 0" using Some by (auto simp: aggregated_def split: if_splits)
  then show ?thesis
    using Some p vs by (simp add: multi_resampled split: loop_end.split)
qed

lemma multi_logs_total:
  assumes "0 \<le> num_paths a" "individual_samples (after_paths env a rs) \<noteq> []" "refresh a \<noteq> 0"
  shows "''Total log probability function evaluations:''
           @ digits_of (unat (lp_calls (after_paths env a rs)))
         \<in> set (log_out (fst (pathfinder_lbfgs_multi env a rs fuel)))"
proof (cases "aggregated env a rs")
  case None
  with assms show ?thesis by (simp add: multi_not_resampled log_total_def)
next
  case (Some p)
  obtain n r S where p: "p = (n, r, S)" by (cases p)
  obtain vs where vs: "fst (resample env a rs fuel n r S)
          = log_total a (after_paths env a rs)
            @ [PsisCall r (tail_len n), CreateRng (random_seed a) (path a)]
            @ map (\<lambda>v. ParamWrite (Values v)) vs"
    using resample_trace by blast
  show ?thesis
    using Some p vs assms(3)
    by (simp add: multi_resampled log_total_def split: loop_end.split)
qed



lemma multi_returns_ok:
  assumes agg: "aggregated env a rs = Some (n, r, S)"
    and inr: "draws_in_range env (psis_weights env r (tail_len n)) S"
    and m: "1 \<le> num_multi_draws a" "num_multi_draws a < 2 ^ 31"
    and fuel: "nat (num_multi_draws a) \<le> fuel"
  shows "snd (pathfinder_lbfgs_multi env a rs fuel) = Returned 0
         \<and> length (draw_rows (fst (pathfinder_lbfgs_multi env a rs fuel)))
             = nat (num_multi_draws a)"
proof -
  let ?b = "word_of_int (num_multi_draws a - 1) :: size_t"
  have nm: "?b \<noteq> - 1" using m by (rule bound_of_draws_not_max)
  have ub: "unat ?b + 1 - unat (0 :: size_t) = nat (num_multi_draws a)"
    using unat_bound_of_draws [OF m] m(1) by simp
  have enough: "unat ?b + 1 - unat (0 :: size_t) \<le> fuel"
    using fuel by (simp only: ub)
  have fin: "snd (resample env a rs fuel n r S) = Loop_done"
    unfolding resample_def using inr nm enough by (rule draw_loop_done)
  have "length (draw_rows (fst (resample env a rs fuel n r S)))
          = length (draw_rows (log_total a (after_paths env a rs)
                     @ [PsisCall r (tail_len n), CreateRng (random_seed a) (path a)]))
            + (unat ?b + 1 - unat (0 :: size_t))"
    using fin unfolding resample_def by (rule draw_loop_count)
  then have cnt: "length (draw_rows (fst (resample env a rs fuel n r S))) = nat (num_multi_draws a)"
    by (simp only: resample_starts_clean ub list.size add_0)
  show ?thesis
    using fin cnt by (simp add: multi_resampled [OF agg])
qed

lemma multi_zero_draws:
  assumes agg: "aggregated env a rs = Some (n, r, S)"
    and inr: "draws_in_range env (psis_weights env r (tail_len n)) S"
    and m: "num_multi_draws a = 0"
  shows "snd (pathfinder_lbfgs_multi env a rs fuel) = Still_running
         \<and> length (draw_rows (fst (pathfinder_lbfgs_multi env a rs fuel))) = fuel"
proof -
  have b: "(word_of_int (num_multi_draws a - 1) :: size_t) = - 1" using m by simp
  have run: "snd (resample env a rs fuel n r S) = Loop_running"
    and cnt: "length (draw_rows (fst (resample env a rs fuel n r S)))
          = length (draw_rows (log_total a (after_paths env a rs)
                     @ [PsisCall r (tail_len n), CreateRng (random_seed a) (path a)]))
            + fuel"
    unfolding resample_def b using draw_loop_running [OF inr] by blast+
  from cnt have "length (draw_rows (fst (resample env a rs fuel n r S))) = fuel"
    by (simp only: resample_starts_clean list.size add_0)
  with run show ?thesis by (simp add: multi_resampled [OF agg])
qed

lemma same_stream_iff:
  fixes p :: uint
  assumes "0 \<le> i" "i < 2 ^ 31"
  shows "p + word_of_int i = p \<longleftrightarrow> i = 0"
proof
  assume "p + word_of_int i = p"
  then have "(word_of_int i :: uint) = 0" by simp
  then have "(2::int) ^ LENGTH(32) dvd i" by (simp only: word_of_int_eq_0_iff)
  then show "i = 0" using assms by (auto dest: zdvd_imp_le)
qed simp

lemma sqrt_100: "sqrt 100 = 10"
  by (rule real_sqrt_unique) simp_all

lemma sqrt_2500: "sqrt 2500 = 50"
  by (rule real_sqrt_unique) simp_all

subsection \<open>Runs of the small environment\<close>

lemmas demo_defs = demo_env_def demo_args_def demo_single_def succeeded_def path_result_def
  path_failed_def path_ok_def after_paths_def orch_init_def header_def
  range_body_failed range_body_ok range_body_done

lemma demo_fields:
  "SOFTWARE (demo_env f w) = 70"
  "constrained_param_names (demo_env f w) = [''theta'']"
  "psis_weights (demo_env f w) r t = map (\<lambda>_. w) r"
  "create_rng (demo_env f w) s k = 0"
  "discrete_draw (demo_env f w) ws g = (int (g mod length ws), g + 1)"
  "to_string_double (demo_env f w) = demo_to_string"
  "now (demo_env f w) n = int n * 1500000000"
  "junk (demo_env f w) = 0"
  "random_seed (demo_args m n') = 42"
  "path (demo_args m n') = 7"
  "refresh (demo_args m n') = 1"
  "num_multi_draws (demo_args m n') = m"
  "num_paths (demo_args m n') = n'"
  by (simp_all add: demo_env_def demo_args_def)

lemma digits_of_digit: "n < 10 \<Longrightarrow> digits_of n = [''0123456789'' ! n]"
  by (subst digits_of.simps) simp

lemma demo_splits: "splits_range 2 [(0, 2)]" "splits_range 2 [(0, 1), (1, 2)]" "splits_range 1 [(0, 1)]"
  by (simp_all add: splits_range_def upto.simps)

lemma demo_all_fail:
  "after_paths (demo_env [0, 1] w) (demo_args m 2) [(0, 1), (1, 2)] =
     \<lparr>trace = [ParamWrite (Names [''theta'', ''lp_approx__'', ''lp__'']),
               DiagWrite (Names [''theta'', ''lp_approx__'', ''lp__'']),
               RunPath 0 42 7, LogInfo ''Pathfinder iteration: 0 failed.'',
               RunPath 1 42 8, LogInfo ''Pathfinder iteration: 1 failed.''],
      individual_lp_ratios = [], individual_samples = [], lp_calls = 0\<rparr>"
  by (simp add: demo_defs to_string_def digits_of_digit)

lemma demo_first_fails_one_range:
  "after_paths (demo_env [0] w) (demo_args m 2) [(0, 2)] =
     \<lparr>trace = [ParamWrite (Names [''theta'', ''lp_approx__'', ''lp__'']),
               DiagWrite (Names [''theta'', ''lp_approx__'', ''lp__'']),
               RunPath 0 42 7, LogInfo ''Pathfinder iteration: 0 failed.''],
      individual_lp_ratios = [], individual_samples = [], lp_calls = 0\<rparr>"
  by (simp add: demo_defs to_string_def digits_of_digit)

lemma demo_first_fails_two_ranges:
  "after_paths (demo_env [0] w) (demo_args m 2) [(0, 1), (1, 2)] =
     \<lparr>trace = [ParamWrite (Names [''theta'', ''lp_approx__'', ''lp__'']),
               DiagWrite (Names [''theta'', ''lp_approx__'', ''lp__'']),
               RunPath 0 42 7, LogInfo ''Pathfinder iteration: 0 failed.'',
               RunPath 1 42 8],
      individual_lp_ratios = [[1]],
      individual_samples = [\<lparr>nrows = 3, mcols = [[1, 1, 2]]\<rparr>], lp_calls = 6\<rparr>"
  by (simp add: demo_defs to_string_def digits_of_digit)

lemma demo_two_paths:
  "after_paths (demo_env [] w) (demo_args m 2) [(0, 2)] =
     \<lparr>trace = [ParamWrite (Names [''theta'', ''lp_approx__'', ''lp__'']),
               DiagWrite (Names [''theta'', ''lp_approx__'', ''lp__'']),
               RunPath 0 42 7, RunPath 1 42 8],
      individual_lp_ratios = [[0], [1]],
      individual_samples = [\<lparr>nrows = 3, mcols = [[0, 1, 2]]\<rparr>, \<lparr>nrows = 3, mcols = [[1, 1, 2]]\<rparr>],
      lp_calls = 11\<rparr>"
  by (simp add: demo_defs)

lemma demo_one_path:
  "after_paths (demo_env [] w) (demo_args m 1) [(0, 1)] =
     \<lparr>trace = [ParamWrite (Names [''theta'', ''lp_approx__'', ''lp__'']),
               DiagWrite (Names [''theta'', ''lp_approx__'', ''lp__'']),
               RunPath 0 42 7],
      individual_lp_ratios = [[0]],
      individual_samples = [\<lparr>nrows = 3, mcols = [[0, 1, 2]]\<rparr>],
      lp_calls = 5\<rparr>"
  by (simp add: demo_defs)

lemma demo_two_paths_aggregated:
  "aggregated (demo_env [] w) (demo_args m 2) [(0, 2)]
     = Some (2, [0, 1], \<lparr>nrows = 3, mcols = [[0, 1, 2], [1, 1, 2]]\<rparr>)"
  by (simp add: aggregated_def demo_two_paths aggregate_concat ncols_def All_less_Suc
      numeral_2_eq_2 demo_fields)

lemma demo_one_path_aggregated:
  "aggregated (demo_env [] w) (demo_args m 1) [(0, 1)]
     = Some (1, [0], \<lparr>nrows = 3, mcols = [[0, 1, 2]]\<rparr>)"
  by (simp add: aggregated_def demo_one_path aggregate_concat ncols_def demo_fields)

lemma demo_draws_in_range:
  "0 < ncols S \<Longrightarrow> length r = ncols S \<Longrightarrow>
   draws_in_range (demo_env f w) (psis_weights (demo_env f w) r t) S"
  by (simp add: draws_in_range_def demo_fields)

lemma draw_loop_numeral:
  "draw_loop env b w S (numeral k) = draw_loop env b w S (Suc (pred_numeral k))"
  by (simp add: numeral_eq_Suc)

lemma tail_len_two: "tail_len (Suc (Suc 0)) = tail_len 2"
  by (simp add: numeral_2_eq_2)

lemma demo_seconds:
  "duration_seconds (now (demo_env f w) 0) (now (demo_env f w) 1) = 3 / 2"
  "duration_seconds (now (demo_env f w) 0) (now (demo_env f w) (Suc 0)) = 3 / 2"
  "duration_seconds (now (demo_env f w) 2) (now (demo_env f w) 3) = 3 / 2"
  by (simp_all add: duration_seconds_def demo_fields signed_divide_int_def)

lemma demo_to_string_values:
  "demo_to_string (3 / 2) = ''1.500000''" "demo_to_string 3 = ''3.000000''"
  by (simp_all add: demo_to_string_def Let_def digits_of.simps)

lemma demo_run_two_draws:
  "pathfinder_lbfgs_multi (demo_env [] w) (demo_args 2 2) [(0, 2)] 2 =
     ([ParamWrite (Names [''theta'', ''lp_approx__'', ''lp__'']),
       DiagWrite (Names [''theta'', ''lp_approx__'', ''lp__'']),
       RunPath 0 42 7, RunPath 1 42 8,
       LogInfo ''Total log probability function evaluations:11'',
       PsisCall [0, 1] (tail_len 2), CreateRng 42 7,
       ParamWrite (Values [0, 1, 2]), ParamWrite (Values [1, 1, 2]),
       ParamWrite Blank,
       ParamWrite (Text ''Elapsed Time: 1.500000 seconds (Pathfinders)''),
       ParamWrite (Text ''              1.500000 seconds (PSIS)''),
       ParamWrite (Text ''              3.000000 seconds (Total)''),
       ParamWrite Blank],
      Returned 0)"
proof -
  have r: "resample (demo_env [] w) (demo_args 2 2) [(0, 2)] 2 2 [0, 1]
             \<lparr>nrows = 3, mcols = [[0, 1, 2], [1, 1, 2]]\<rparr>
           = ([ParamWrite (Names [''theta'', ''lp_approx__'', ''lp__'']),
               DiagWrite (Names [''theta'', ''lp_approx__'', ''lp__'']),
               RunPath 0 42 7, RunPath 1 42 8,
               LogInfo ''Total log probability function evaluations:11'',
               PsisCall [0, 1] (tail_len 2), CreateRng 42 7,
               ParamWrite (Values [0, 1, 2]), ParamWrite (Values [1, 1, 2])], Loop_done)"
    by (simp add: resample_def log_total_def demo_two_paths draw_loop_numeral ncols_def
        digits_of.simps demo_fields word_le_nat_alt tail_len_two)
  show ?thesis
    by (simp add: multi_resampled [OF demo_two_paths_aggregated] r demo_seconds
        timing_report_def time_header_def)
       (simp add: demo_fields demo_to_string_values)
qed

lemma uneven_results:
  "path_result uneven_env (demo_args 1 2) 0
     = \<lparr>ret_code = 0, lp_ratio = [0], draws = \<lparr>nrows = 3, mcols = [[0, 1, 2]]\<rparr>, evals = 5\<rparr>"
  "path_result uneven_env (demo_args 1 2) 1
     = \<lparr>ret_code = 0, lp_ratio = [1, 1],
        draws = \<lparr>nrows = 3, mcols = [[1, 1, 2], [1, 1, 2]]\<rparr>, evals = 5\<rparr>"
  by (simp_all add: path_result_def uneven_env_def uneven_single_def demo_env_def)

lemma uneven_interleaved:
  "concurrent_for uneven_env (demo_args 1 2) [0, 0, 1, 1, 1] (bodies [(0, 1), (1, 2)])
     (orch_init uneven_env)
   = \<lparr>trace = [ParamWrite (Names [''theta'', ''lp_approx__'', ''lp__'']),
               DiagWrite (Names [''theta'', ''lp_approx__'', ''lp__'']),
               RunPath 0 42 7, RunPath 1 42 8],
      individual_lp_ratios = [[0], [1, 1]],
      individual_samples = [\<lparr>nrows = 3, mcols = [[1, 1, 2], [1, 1, 2]]\<rparr>,
                            \<lparr>nrows = 3, mcols = [[0, 1, 2]]\<rparr>],
      lp_calls = 10\<rparr>"
  by (simp add: bodies_def body_step_def finish_body_step finish_body_done Let_def
      orch_init_def header_def uneven_env_def uneven_single_def demo_env_def demo_args_def)

lemma uneven_in_turn:
  "concurrent_for uneven_env (demo_args 1 2) [] (bodies [(0, 1), (1, 2)]) (orch_init uneven_env)
   = \<lparr>trace = [ParamWrite (Names [''theta'', ''lp_approx__'', ''lp__'']),
               DiagWrite (Names [''theta'', ''lp_approx__'', ''lp__'']),
               RunPath 0 42 7, RunPath 1 42 8],
      individual_lp_ratios = [[0], [1, 1]],
      individual_samples = [\<lparr>nrows = 3, mcols = [[0, 1, 2]]\<rparr>,
                            \<lparr>nrows = 3, mcols = [[1, 1, 2], [1, 1, 2]]\<rparr>],
      lp_calls = 10\<rparr>"
  by (simp add: bodies_def body_step_def finish_body_step finish_body_done Let_def
      orch_init_def header_def uneven_env_def uneven_single_def demo_env_def demo_args_def)

lemma uneven_aggregate_fails:
  "aggregate u [[0], [1, 1]]
     [\<lparr>nrows = 3, mcols = [[1, 1, 2], [1, 1, 2]]\<rparr>, \<lparr>nrows = 3, mcols = [[0, 1, 2]]\<rparr>] = None"
  unfolding aggregate_def Let_def
  by (subst fill_loop.simps) (simp add: segment_assign_def middleCols_assign_def ncols_def)

lemma uneven_in_turn_aggregates:
  "aggregate u [[0], [1, 1]]
     [\<lparr>nrows = 3, mcols = [[0, 1, 2]]\<rparr>, \<lparr>nrows = 3, mcols = [[1, 1, 2], [1, 1, 2]]\<rparr>]
   = Some (3, [0, 1, 1], \<lparr>nrows = 3, mcols = [[0, 1, 2], [1, 1, 2], [1, 1, 2]]\<rparr>)"
  by (simp add: aggregate_concat ncols_def All_less_Suc)

section \<open>The properties of the specification\<close>

subsection \<open>Resampling with no draws\<close>

text \<open>
  C1 on the code: one path, which succeeds, and \<open>num_multi_draws = 0\<close>. The loop bound
  \<open>0 - 1\<close> becomes the largest \<^verbatim>\<open>size_t\<close>, the loop condition never fails, and after
  any number \<open>fuel\<close> of iterations the call is still drawing and has written \<open>fuel\<close>
  draw rows.
\<close>

theorem zero_draws_never_returns:
  "num_multi_draws (demo_args 0 1) = 0
   \<and> aggregated (demo_env [] 1) (demo_args 0 1) [(0, 1)]
       = Some (1, [0], \<lparr>nrows = 3, mcols = [[0, 1, 2]]\<rparr>)
   \<and> snd (pathfinder_lbfgs_multi (demo_env [] 1) (demo_args 0 1) [(0, 1)] fuel) = Still_running
   \<and> length (draw_rows (fst (pathfinder_lbfgs_multi (demo_env [] 1) (demo_args 0 1) [(0, 1)] fuel)))
       = fuel"
proof -
  let ?S = "\<lparr>nrows = 3, mcols = [[0, 1, 2]]\<rparr>"
  have agg: "aggregated (demo_env [] 1) (demo_args 0 1) [(0, 1)] = Some (1, [0], ?S)"
    by (rule demo_one_path_aggregated)
  have inr: "draws_in_range (demo_env [] 1 :: nat env)
               (psis_weights (demo_env [] 1) [0] (tail_len 1)) ?S"
    by (rule demo_draws_in_range) (simp_all add: ncols_def)
  have m: "num_multi_draws (demo_args 0 1) = 0" by (simp add: demo_fields)
  show ?thesis
    using multi_zero_draws [OF agg inr m, of fuel] agg m by simp
qed

subsection \<open>A failing path\<close>

text \<open>
  C2 on the code: two paths in one sub-range \<open>[0, 2)\<close>. Path 0 fails; the \<^verbatim>\<open>return\<close>
  leaves the body, so path 1, which would succeed, is never run, and the call fails
  for want of a successful path.
\<close>

theorem failed_path_ends_its_range:
  "splits_range (num_paths (demo_args 1 2)) [(0, 2)]
   \<and> ret_code (path_result (demo_env [0] 1) (demo_args 1 2) 0) = SOFTWARE (demo_env [0] 1 :: nat env)
   \<and> ret_code (path_result (demo_env [0] 1) (demo_args 1 2) 1) = 0
   \<and> SOFTWARE (demo_env [0] 1 :: nat env) = 70
   \<and> paths_executed (demo_env [0] 1) (demo_args 1 2) [(0, 2)] = [0]
   \<and> pathfinder_lbfgs_multi (demo_env [0] 1) (demo_args 1 2) [(0, 2)] 1 =
       ([ParamWrite (Names [''theta'', ''lp_approx__'', ''lp__'']),
         DiagWrite (Names [''theta'', ''lp_approx__'', ''lp__'']),
         RunPath 0 42 7,
         LogInfo ''Pathfinder iteration: 0 failed.'',
         LogInfo ''No pathfinders ran successfully''],
        Returned 70)"
  by (simp add: paths_executed_def multi_unfold demo_first_fails_one_range demo_splits
       demo_fields)
     (simp add: path_result_def demo_env_def demo_single_def)

subsection \<open>Random number streams\<close>

text \<open>
  C3 as stated fails: with one path, that path is run on stream \<open>(42, 7)\<close> and the
  resampling generator is created on the same stream \<open>(42, 7)\<close>.
\<close>

theorem rng_streams_counterexample:
  "path_streams (fst (pathfinder_lbfgs_multi (demo_env [] 1) (demo_args 1 1) [(0, 1)] 1))
     = [(0, 42, 7)]
   \<and> rngs_created (fst (pathfinder_lbfgs_multi (demo_env [] 1) (demo_args 1 1) [(0, 1)] 1))
     = [(42, 7)]"
  by (simp add: multi_path_streams multi_rngs_created demo_one_path demo_one_path_aggregated
      demo_fields)

text \<open>
  C3, as the code has it. The generator for resampling is created from
  \<open>(random_seed, path)\<close>. Path \<open>i\<close>, \<open>0 \<le> i < num_paths\<close>, is run with seed
  \<open>random_seed\<close> and path id \<open>path + i\<close> (modulo \<open>2 ^ 32\<close>). The path id equals the
  stream id of the resampling generator exactly for \<open>i = 0\<close>: the resampling stream is
  the stream of the first path and differs from those of all later paths.
\<close>

theorem rng_streams:
  assumes "splits_range (num_paths a) rs" and "num_paths a < 2 ^ 31"
  shows "set (rngs_created (fst (pathfinder_lbfgs_multi env a rs fuel)))
           \<subseteq> {(random_seed a, path a)}
         \<and> (\<forall>(i, s, k) \<in> set (path_streams (fst (pathfinder_lbfgs_multi env a rs fuel))).
               0 \<le> i \<and> i < num_paths a \<and> s = random_seed a \<and> k = path a + word_of_int i
               \<and> (k = path a \<longleftrightarrow> i = 0))"
proof (intro conjI)
  show "set (rngs_created (fst (pathfinder_lbfgs_multi env a rs fuel)))
           \<subseteq> {(random_seed a, path a)}"
    by (cases "aggregated env a rs") (simp_all add: multi_rngs_created)
next
  have "0 \<le> i \<and> i < num_paths a \<and> s = random_seed a \<and> k = path a + word_of_int i
        \<and> (k = path a \<longleftrightarrow> i = 0)"
    if "(i, s, k) \<in> set (path_streams (trace (after_paths env a rs)))" for i s k
  proof -
    from that after_paths_streams [of a rs env]
    obtain b e where be: "(b, e) \<in> set rs" "b \<le> i" "i < e"
      and sk: "s = random_seed a" "k = path a + word_of_int i"
      by (auto simp: streams_ok_def)
    have i: "0 \<le> i \<and> i < num_paths a" using assms(1) be by (rule splits_range_indices)
    then have "i < 2 ^ 31" using assms(2) by simp
    with i have "path a + word_of_int i = path a \<longleftrightarrow> i = 0" by (intro same_stream_iff) simp_all
    with i sk show ?thesis by simp
  qed
  then show "\<forall>(i, s, k) \<in> set (path_streams (fst (pathfinder_lbfgs_multi env a rs fuel))).
               0 \<le> i \<and> i < num_paths a \<and> s = random_seed a \<and> k = path a + word_of_int i
               \<and> (k = path a \<longleftrightarrow> i = 0)"
    by (auto simp add: multi_path_streams)
qed

theorem rng_streams_witness:
  "splits_range (num_paths (demo_args 2 2)) [(0, 2)] \<and> num_paths (demo_args 2 2) < 2 ^ 31
   \<and> rngs_created (fst (pathfinder_lbfgs_multi (demo_env [] 1) (demo_args 2 2) [(0, 2)] 2))
      = [(42, 7)]
   \<and> path_streams (fst (pathfinder_lbfgs_multi (demo_env [] 1) (demo_args 2 2) [(0, 2)] 2))
      = [(0, 42, 7), (1, 42, 7 + word_of_int 1)]"
proof -
  have h: "splits_range (num_paths (demo_args 2 2)) [(0, 2)]" "num_paths (demo_args 2 2) < 2 ^ 31"
    by (simp_all add: demo_fields demo_splits)
  show ?thesis
    using h rng_streams [OF h, of "demo_env [] 1" 2]
    by (simp add: demo_run_two_draws)
qed

subsection \<open>No successful path\<close>

text \<open>
  C4. When every path that was run reported \<open>SOFTWARE\<close>, the call returns \<open>SOFTWARE\<close>;
  the parameter sink and the diagnostic sink each hold the header row and nothing else,
  so no draw row was written.
\<close>

theorem no_success_fails:
  assumes "0 \<le> num_paths a"
    and "\<forall>i \<in> set (paths_executed env a rs). ret_code (path_result env a i) = SOFTWARE env"
  shows "snd (pathfinder_lbfgs_multi env a rs fuel) = Returned (SOFTWARE env)
         \<and> param_out (fst (pathfinder_lbfgs_multi env a rs fuel)) = [Names (header env)]
         \<and> diag_out (fst (pathfinder_lbfgs_multi env a rs fuel)) = [Names (header env)]
         \<and> draw_rows (fst (pathfinder_lbfgs_multi env a rs fuel)) = []"
proof -
  have "filter (succeeded env a) (paths_run (trace (after_paths env a rs))) = []"
    using assms(2) by (simp add: paths_executed_def succeeded_def filter_empty_conv)
  then have "individual_samples (after_paths env a rs) = []"
    using after_paths_in_step [of env a rs] by (simp add: in_step_def)
  then show ?thesis
    using assms(1) by (simp add: multi_unfold after_paths_outputs)
qed

theorem no_success_fails_witness:
  "0 \<le> num_paths (demo_args 1 2)
   \<and> paths_executed (demo_env [0, 1] 1) (demo_args 1 2) [(0, 1), (1, 2)] = [0, 1]
   \<and> ret_code (path_result (demo_env [0, 1] 1) (demo_args 1 2) 0) = SOFTWARE (demo_env [0, 1] 1 :: nat env)
   \<and> ret_code (path_result (demo_env [0, 1] 1) (demo_args 1 2) 1) = SOFTWARE (demo_env [0, 1] 1 :: nat env)
   \<and> snd (pathfinder_lbfgs_multi (demo_env [0, 1] 1) (demo_args 1 2) [(0, 1), (1, 2)] 1) = Returned 70
   \<and> param_out (fst (pathfinder_lbfgs_multi (demo_env [0, 1] 1) (demo_args 1 2) [(0, 1), (1, 2)] 1))
       = [Names [''theta'', ''lp_approx__'', ''lp__'']]
   \<and> diag_out (fst (pathfinder_lbfgs_multi (demo_env [0, 1] 1) (demo_args 1 2) [(0, 1), (1, 2)] 1))
       = [Names [''theta'', ''lp_approx__'', ''lp__'']]
   \<and> draw_rows (fst (pathfinder_lbfgs_multi (demo_env [0, 1] 1) (demo_args 1 2) [(0, 1), (1, 2)] 1)) = []"
proof -
  have ex: "paths_executed (demo_env [0, 1] 1) (demo_args 1 2) [(0, 1), (1, 2)] = [0, 1]"
    by (simp add: paths_executed_def demo_all_fail)
  have f: "ret_code (path_result (demo_env [0, 1] 1) (demo_args 1 2) 0) = SOFTWARE (demo_env [0, 1] 1 :: nat env)"
    "ret_code (path_result (demo_env [0, 1] 1) (demo_args 1 2) 1) = SOFTWARE (demo_env [0, 1] 1 :: nat env)"
    by (simp_all add: path_result_def demo_env_def demo_single_def)
  have h: "\<forall>i \<in> set (paths_executed (demo_env [0, 1] 1) (demo_args 1 2) [(0, 1), (1, 2)]).
             ret_code (path_result (demo_env [0, 1] 1) (demo_args 1 2) i) = SOFTWARE (demo_env [0, 1] 1 :: nat env)"
    using f by (simp add: ex)
  have n: "0 \<le> num_paths (demo_args 1 2)" by (simp add: demo_fields)
  show ?thesis
    using no_success_fails [OF n h, of 1] ex f n by (simp add: demo_fields header_def)
qed

subsection \<open>The tail length\<close>

text \<open>
  C5. The weight function is called exactly when the run reaches the resampling phase,
  once, with the aggregated ratios and the tail length
  \<open>min (0.2 * N) (3 * sqrt N)\<close> for their number \<open>N\<close>. For \<open>N = 100\<close> the tail
  length is 20, for \<open>N = 2500\<close> it is 150. (Doubles are read as reals.)
\<close>

theorem tail_length_passed_to_psis:
  "psis_calls (fst (pathfinder_lbfgs_multi env a rs fuel))
     = (case aggregated env a rs of
          None \<Rightarrow> []
        | Some (n, r, S) \<Rightarrow>
            [(r, min (0.2 * real (length r)) (3 * sqrt (real (length r))))])
   \<and> tail_len 100 = 20 \<and> tail_len 2500 = 150"
proof -
  have "tail_len 100 = 20" "tail_len 2500 = 150"
    by (simp_all add: tail_len_def sqrt_100 sqrt_2500)
  moreover have "psis_calls (fst (pathfinder_lbfgs_multi env a rs fuel))
     = (case aggregated env a rs of
          None \<Rightarrow> []
        | Some (n, r, S) \<Rightarrow>
            [(r, min (0.2 * real (length r)) (3 * sqrt (real (length r))))])"
  proof (cases "aggregated env a rs")
    case None
    then show ?thesis by (simp add: multi_psis_calls)
  next
    case (Some p)
    obtain n r S where p: "p = (n, r, S)" by (cases p)
    have "length r = n" using Some p aggregated_length by blast
    then show ?thesis using Some p by (simp add: multi_psis_calls tail_len_def)
  qed
  ultimately show ?thesis by simp
qed

theorem tail_length_passed_to_psis_witness:
  "aggregated (demo_env [] 1) (demo_args 2 2) [(0, 2)]
     = Some (2, [0, 1], \<lparr>nrows = 3, mcols = [[0, 1, 2], [1, 1, 2]]\<rparr>)
   \<and> psis_calls (fst (pathfinder_lbfgs_multi (demo_env [] 1) (demo_args 2 2) [(0, 2)] 2))
       = [([0, 1], 2 / 5)]"
proof -
  have "(1::real) \<le> sqrt 2" by simp
  then have "(2::real) \<le> 15 * sqrt 2" by linarith
  then show ?thesis
    using tail_length_passed_to_psis [of "demo_env [] 1" "demo_args 2 2" "[(0, 2)]" 2]
    by (simp add: demo_two_paths_aggregated)
qed

subsection \<open>The aggregated set\<close>

text \<open>
  C6 on the code: two paths, each in a sub-range of its own, both successful, path 0
  with one draw and path 1 with two; each has as many ratios as sample columns, and
  three rows. Body 0 appends its ratios; body 1 then appends its ratios and its samples
  before body 0 appends its samples. The vector of ratios now holds path 0 before
  path 1 and the vector of samples path 1 before path 0. The filling loop takes the
  width of the first block from the ratios of path 0 and assigns the two columns of
  path 1 to it: the assertion of the block assignment fails, and no aggregated matrix
  holds the columns of each path in its block.
\<close>

theorem misaligned_results_fail_aggregation:
  "splits_range (num_paths (demo_args 1 2)) [(0, 1), (1, 2)]
   \<and> lp_ratio (path_result uneven_env (demo_args 1 2) 0) = [0]
   \<and> draws (path_result uneven_env (demo_args 1 2) 0) = \<lparr>nrows = 3, mcols = [[0, 1, 2]]\<rparr>
   \<and> lp_ratio (path_result uneven_env (demo_args 1 2) 1) = [1, 1]
   \<and> draws (path_result uneven_env (demo_args 1 2) 1)
       = \<lparr>nrows = 3, mcols = [[1, 1, 2], [1, 1, 2]]\<rparr>
   \<and> individual_lp_ratios
        (concurrent_for uneven_env (demo_args 1 2) [0, 0, 1, 1, 1] (bodies [(0, 1), (1, 2)])
           (orch_init uneven_env))
       = [[0], [1, 1]]
   \<and> individual_samples
        (concurrent_for uneven_env (demo_args 1 2) [0, 0, 1, 1, 1] (bodies [(0, 1), (1, 2)])
           (orch_init uneven_env))
       = [\<lparr>nrows = 3, mcols = [[1, 1, 2], [1, 1, 2]]\<rparr>, \<lparr>nrows = 3, mcols = [[0, 1, 2]]\<rparr>]
   \<and> aggregate (junk uneven_env)
        (individual_lp_ratios
           (concurrent_for uneven_env (demo_args 1 2) [0, 0, 1, 1, 1] (bodies [(0, 1), (1, 2)])
              (orch_init uneven_env)))
        (individual_samples
           (concurrent_for uneven_env (demo_args 1 2) [0, 0, 1, 1, 1] (bodies [(0, 1), (1, 2)])
              (orch_init uneven_env)))
       = None"
  unfolding uneven_interleaved
  by (simp add: uneven_results uneven_aggregate_fails demo_splits demo_fields)

text \<open>
  The aggregation of vectors in which every position holds the ratios and the samples
  of one path, as they are when the bodies do not overlap (\<open>aggregated_of_run\<close>). For
  such a non-empty family, where entry \<open>j\<close> has as many ratios as its sample matrix has
  columns, and all sample matrices have the row count of the first (the shape of a
  path result; the code does not check it), the aggregation succeeds. The aggregated
  ratios and the aggregated columns both number the sum of the \<open>n\<^sub>j\<close>, and the block of
  entry \<open>j\<close>, which starts at the sum of the earlier \<open>n\<^sub>i\<close>, holds the ratios and the
  columns of that entry in their order.
\<close>

theorem aggregate_blocks:
  assumes "isa \<noteq> []" and "length ilr = length isa"
    and "\<forall>j < length isa. length (ilr ! j) = ncols (isa ! j) \<and> nrows (isa ! j) = nrows (isa ! 0)"
  shows "aggregate u ilr isa
           = Some (sum_list (map length ilr), concat ilr,
                   \<lparr>nrows = nrows (isa ! 0), mcols = concat (map mcols isa)\<rparr>)
         \<and> length (concat ilr) = sum_list (map length ilr)
         \<and> length (concat (map mcols isa)) = sum_list (map length ilr)
         \<and> (\<forall>j < length isa.
               take (length (ilr ! j)) (drop (sum_list (map length (take j ilr))) (concat ilr))
                 = ilr ! j
               \<and> take (length (ilr ! j))
                   (drop (sum_list (map length (take j ilr))) (concat (map mcols isa)))
                 = mcols (isa ! j))"
proof -
  have lens: "map length (map mcols isa) = map length ilr"
    using assms(2,3) by (auto simp: list_eq_iff_nth_eq ncols_def)
  have agg: "aggregate u ilr isa
           = Some (sum_list (map length ilr), concat ilr,
                   \<lparr>nrows = nrows (isa ! 0), mcols = concat (map mcols isa)\<rparr>)"
    using assms(2,3) by (intro aggregate_concat) simp_all
  have l1: "length (concat ilr) = sum_list (map length ilr)" by (rule length_concat)
  have l2: "length (concat (map mcols isa)) = sum_list (map length ilr)"
    using lens by (simp only: length_concat)
  have blocks: "take (length (ilr ! j)) (drop (sum_list (map length (take j ilr))) (concat ilr))
                 = ilr ! j
               \<and> take (length (ilr ! j))
                   (drop (sum_list (map length (take j ilr))) (concat (map mcols isa)))
                 = mcols (isa ! j)" if j: "j < length isa" for j
  proof -
    have "map length (take j (map mcols isa)) = map length (take j ilr)"
      using lens by (simp only: take_map [symmetric])
    moreover have "length (map mcols isa ! j) = length (ilr ! j)"
      using assms(3) j by (simp add: ncols_def)
    moreover have "j < length (map mcols isa)" using j by simp
    ultimately have "take (length (ilr ! j))
                   (drop (sum_list (map length (take j ilr))) (concat (map mcols isa)))
                 = map mcols isa ! j"
      using concat_block [of j "map mcols isa"] by simp
    moreover have "j < length ilr" using j assms(2) by simp
    ultimately show ?thesis using j by (simp add: concat_block)
  qed
  show ?thesis using agg l1 l2 blocks by blast
qed

theorem aggregate_blocks_witness:
  "aggregate 0 [[1, 2], [3]]
     [\<lparr>nrows = 2, mcols = [[10, 11], [20, 21]]\<rparr>, \<lparr>nrows = 2, mcols = [[30, 31]]\<rparr>]
   = Some (3, [1, 2, 3], \<lparr>nrows = 2, mcols = [[10, 11], [20, 21], [30, 31]]\<rparr>)"
proof -
  let ?isa = "[\<lparr>nrows = 2, mcols = [[10, 11], [20, 21]]\<rparr>, \<lparr>nrows = 2, mcols = [[30 :: real, 31]]\<rparr>]"
  let ?ilr = "[[1, 2], [3 :: real]]"
  have h: "?isa \<noteq> []" "length ?ilr = length ?isa"
    "\<forall>j < length ?isa. length (?ilr ! j) = ncols (?isa ! j) \<and> nrows (?isa ! j) = nrows (?isa ! 0)"
    by (simp_all add: ncols_def All_less_Suc)
  show ?thesis
    using aggregate_blocks [OF h, of 0] by simp
qed

subsection \<open>All weights zero\<close>

text \<open>
  C7 as stated fails: both weights are zero, and the call draws two rows and returns 0,
  which is not \<open>SOFTWARE\<close>.
\<close>

theorem zero_weights_counterexample:
  "aggregated (demo_env [] 0) (demo_args 2 2) [(0, 2)]
     = Some (2, [0, 1], \<lparr>nrows = 3, mcols = [[0, 1, 2], [1, 1, 2]]\<rparr>)
   \<and> psis_weights (demo_env [] 0 :: nat env) [0, 1] (tail_len 2) = [0, 0]
   \<and> SOFTWARE (demo_env [] 0 :: nat env) = 70
   \<and> pathfinder_lbfgs_multi (demo_env [] 0) (demo_args 2 2) [(0, 2)] 2 =
     ([ParamWrite (Names [''theta'', ''lp_approx__'', ''lp__'']),
       DiagWrite (Names [''theta'', ''lp_approx__'', ''lp__'']),
       RunPath 0 42 7, RunPath 1 42 8,
       LogInfo ''Total log probability function evaluations:11'',
       PsisCall [0, 1] (tail_len 2), CreateRng 42 7,
       ParamWrite (Values [0, 1, 2]), ParamWrite (Values [1, 1, 2]),
       ParamWrite Blank,
       ParamWrite (Text ''Elapsed Time: 1.500000 seconds (Pathfinders)''),
       ParamWrite (Text ''              1.500000 seconds (PSIS)''),
       ParamWrite (Text ''              3.000000 seconds (Total)''),
       ParamWrite Blank],
      Returned 0)"
  by (simp add: demo_two_paths_aggregated demo_run_two_draws demo_fields)

text \<open>
  C7, as the code has it. The weights are not inspected. When they are all zero, the
  distribution is built from them all the same, and if every index it gives is a column
  of the samples and \<open>1 \<le> num_multi_draws\<close>, the call writes \<open>num_multi_draws\<close> draw
  rows and returns 0.
\<close>

theorem zero_weights_not_checked:
  assumes "aggregated env a rs = Some (n, r, S)"
    and "\<forall>x \<in> set (psis_weights env r (tail_len n)). x = 0"
    and "draws_in_range env (psis_weights env r (tail_len n)) S"
    and "1 \<le> num_multi_draws a" and "num_multi_draws a < 2 ^ 31"
    and "nat (num_multi_draws a) \<le> fuel"
  shows "snd (pathfinder_lbfgs_multi env a rs fuel) = Returned 0
         \<and> length (draw_rows (fst (pathfinder_lbfgs_multi env a rs fuel)))
             = nat (num_multi_draws a)"
  using assms(1,3-6) by (rule multi_returns_ok)

theorem zero_weights_not_checked_witness:
  "aggregated (demo_env [] 0) (demo_args 2 2) [(0, 2)]
     = Some (2, [0, 1], \<lparr>nrows = 3, mcols = [[0, 1, 2], [1, 1, 2]]\<rparr>)
   \<and> psis_weights (demo_env [] 0 :: nat env) [0, 1] (tail_len 2) = [0, 0]
   \<and> 1 \<le> num_multi_draws (demo_args 2 2) \<and> num_multi_draws (demo_args 2 2) < 2 ^ 31
   \<and> snd (pathfinder_lbfgs_multi (demo_env [] 0) (demo_args 2 2) [(0, 2)] 2) = Returned 0
   \<and> length (draw_rows (fst (pathfinder_lbfgs_multi (demo_env [] 0) (demo_args 2 2) [(0, 2)] 2)))
       = 2"
proof -
  let ?S = "\<lparr>nrows = 3, mcols = [[0, 1, 2], [1, 1, 2]]\<rparr>"
  have agg: "aggregated (demo_env [] 0) (demo_args 2 2) [(0, 2)] = Some (2, [0, 1], ?S)"
    by (rule demo_two_paths_aggregated)
  have zero: "\<forall>x \<in> set (psis_weights (demo_env [] 0 :: nat env) [0, 1] (tail_len 2)).
                x = 0"
    by (simp add: demo_fields)
  have inr: "draws_in_range (demo_env [] 0 :: nat env)
               (psis_weights (demo_env [] 0) [0, 1] (tail_len 2)) ?S"
    by (rule demo_draws_in_range) (simp_all add: ncols_def)
  have m: "1 \<le> num_multi_draws (demo_args 2 2)" "num_multi_draws (demo_args 2 2) < 2 ^ 31"
    "nat (num_multi_draws (demo_args 2 2)) \<le> 2"
    by (simp_all add: demo_fields)
  show ?thesis
    using zero_weights_not_checked [OF agg zero inr m] agg m
    by (simp add: demo_fields)
qed

subsection \<open>The evaluation count\<close>

text \<open>
  C8 as stated fails: path 0 fails after 5 evaluations, path 1 succeeds after 6; the
  counter ends at 6, not at 11.
\<close>

theorem evaluations_counterexample:
  "paths_executed (demo_env [0] 1) (demo_args 1 2) [(0, 1), (1, 2)] = [0, 1]
   \<and> ret_code (path_result (demo_env [0] 1) (demo_args 1 2) 0) = SOFTWARE (demo_env [0] 1 :: nat env)
   \<and> evals (path_result (demo_env [0] 1) (demo_args 1 2) 0) = 5
   \<and> evals (path_result (demo_env [0] 1) (demo_args 1 2) 1) = 6
   \<and> lp_calls (after_paths (demo_env [0] 1) (demo_args 1 2) [(0, 1), (1, 2)]) = 6
   \<and> lp_calls (after_paths (demo_env [0] 1) (demo_args 1 2) [(0, 1), (1, 2)])
       \<noteq> evals (path_result (demo_env [0] 1) (demo_args 1 2) 0)
         + evals (path_result (demo_env [0] 1) (demo_args 1 2) 1)"
  by (simp add: paths_executed_def demo_first_fails_two_ranges)
     (simp add: path_result_def demo_env_def demo_single_def)

text \<open>
  C8, as the code has it. The counter after the parallel phase is the sum (modulo
  \<open>2 ^ 64\<close>) of the evaluation counts of the paths that were run and did not report
  \<open>SOFTWARE\<close>; the count of a failed path is not added. When at least one path
  succeeded and \<open>refresh\<close> is not 0, this number is logged.
\<close>

theorem evaluations_of_successful_paths:
  "lp_calls (after_paths env a rs)
     = sum_list (map (\<lambda>i. evals (path_result env a i))
         (filter (\<lambda>i. ret_code (path_result env a i) \<noteq> SOFTWARE env) (paths_executed env a rs)))
   \<and> (0 \<le> num_paths a \<and> individual_samples (after_paths env a rs) \<noteq> [] \<and> refresh a \<noteq> 0 \<longrightarrow>
        ''Total log probability function evaluations:''
          @ digits_of (unat (lp_calls (after_paths env a rs)))
        \<in> set (log_out (fst (pathfinder_lbfgs_multi env a rs fuel))))"
  using after_paths_in_step [of env a rs] multi_logs_total [of a env rs fuel]
  by (simp add: in_step_def paths_executed_def succeeded_def [abs_def])

theorem evaluations_of_successful_paths_witness:
  "0 \<le> num_paths (demo_args 1 2)
   \<and> individual_samples (after_paths (demo_env [0] 1) (demo_args 1 2) [(0, 1), (1, 2)]) \<noteq> []
   \<and> refresh (demo_args 1 2) \<noteq> 0
   \<and> lp_calls (after_paths (demo_env [0] 1) (demo_args 1 2) [(0, 1), (1, 2)]) = 6
   \<and> ''Total log probability function evaluations:6''
      \<in> set (log_out (fst (pathfinder_lbfgs_multi (demo_env [0] 1) (demo_args 1 2)
                               [(0, 1), (1, 2)] 1)))"
  using evaluations_of_successful_paths
    [of "demo_env [0] 1" "demo_args 1 2" "[(0, 1), (1, 2)]" 1]
  by (simp add: demo_first_fails_two_ranges demo_fields digits_of_digit)

subsection \<open>Header and timing report\<close>



subsection \<open>No paths at all\<close>

text \<open>
  C10. With \<open>num_paths = 0\<close> the range is empty and no sub-range is handed out. The
  run writes the header to both sinks, runs no path, logs that no pathfinder ran
  successfully and returns \<open>SOFTWARE\<close>; the trace holds nothing else. The empty path
  set goes through the branch for zero successes.
\<close>

theorem empty_path_set_fails:
  assumes "num_paths a = 0" and "splits_range (num_paths a) rs"
  shows "pathfinder_lbfgs_multi env a rs fuel
           = ([ParamWrite (Names (header env)), DiagWrite (Names (header env)),
               LogInfo ''No pathfinders ran successfully''],
              Returned (SOFTWARE env))
         \<and> paths_executed env a rs = []"
proof -
  have "rs = []" using assms by (intro splits_range_empty [of "num_paths a"]) simp_all
  then have "after_paths env a rs = orch_init env" by (simp add: after_paths_def)
  then show ?thesis
    using assms(1) by (simp add: multi_unfold paths_executed_def orch_init_def)
qed

theorem empty_path_set_fails_witness:
  "num_paths (demo_args 3 0) = 0 \<and> splits_range (num_paths (demo_args 3 0)) [] \<and>
   pathfinder_lbfgs_multi (demo_env [] 1) (demo_args 3 0) [] 5
     = ([ParamWrite (Names [''theta'', ''lp_approx__'', ''lp__'']),
         DiagWrite (Names [''theta'', ''lp_approx__'', ''lp__'']),
         LogInfo ''No pathfinders ran successfully''],
        Returned 70)"
proof -
  have h: "num_paths (demo_args 3 0) = 0" "splits_range (num_paths (demo_args 3 0)) []"
    by (simp_all add: demo_args_def splits_range_def)
  show ?thesis
    using h empty_path_set_fails [OF h, of "demo_env [] 1" 5]
    by (simp add: header_def demo_env_def)
qed

end
